theory Spec2Isabelle
  imports Complex_Main "HOL-Library.Multiset"
begin

section \<open>JavaScript values\<close>

text \<open>
  A JavaScript string is a sequence of UTF-16 code units; a code unit is modelled as a
  natural number and a string as the list of its code units. \<open>js\<close> embeds an ASCII
  literal. A JavaScript number is modelled as a real: rounding, \<open>NaN\<close> and the
  infinities are not modelled, and a division whose result would not be a finite number
  (a zero divisor) is the value \<open>None\<close> of \<open>js_div\<close>. Division by a non-zero
  literal of the source is written as plain real division.
\<close>

type_synonym js_string = "nat list"

definition js :: "string \<Rightarrow> js_string" where
  "js s = map of_char s"

definition js_div :: "real \<Rightarrow> real \<Rightarrow> real option" where
  "js_div a b = (if b = 0 then None else Some (a / b))"

text \<open>The operator \<open>??\<close>: the right operand replaces \<open>undefined\<close> (and \<open>null\<close>).\<close>

definition nullish :: "'a option \<Rightarrow> 'a \<Rightarrow> 'a" where
  "nullish v d = (case v of None \<Rightarrow> d | Some x \<Rightarrow> x)"

text \<open>Reading \<open>xs[i]\<close>: \<open>undefined\<close> outside the array.\<close>

definition at_index :: "'a list \<Rightarrow> nat \<Rightarrow> 'a option" where
  "at_index xs i = (if i < length xs then Some (xs ! i) else None)"

section \<open>The heuristic risk estimator (handleCognitiveComplete, local branch)\<close>

record SpeechTask =
  speech_id :: js_string
  speech_title :: js_string
  speech_description :: js_string
  speech_prompt :: js_string
  maxDurationMs :: "real option"

definition SPEECH_TASKS :: "SpeechTask list" where
  "SPEECH_TASKS =
    [\<lparr>speech_id = js ''picture-description'',
      speech_title = js ''Picture Description'',
      speech_description =
        js ''Describe the scene shown in the picture prompt in as much detail as possible.'',
      speech_prompt =
        js ''Imagine you are looking at a photo of a family cooking together in a kitchen. Describe everything you see.'',
      maxDurationMs = Some 90000\<rparr>,
     \<lparr>speech_id = js ''story-recall'',
      speech_title = js ''Story Recall'',
      speech_description = js ''Listen to a short story and retell it in your own words.'',
      speech_prompt =
        js ''Recall a memorable event from your life and describe what happened, who was involved, and how it made you feel.'',
      maxDurationMs = Some 120000\<rparr>,
     \<lparr>speech_id = js ''free-conversation'',
      speech_title = js ''Open Conversation'',
      speech_description =
        js ''Speak freely about any topic of your choice for at least one minute.'',
      speech_prompt =
        js ''Share your thoughts about how technology has changed communication in your lifetime.'',
      maxDurationMs = Some 90000\<rparr>]"

record CognitiveScores =
  memoryScore :: real
  attentionScore :: real
  languageScore :: real
  executiveScore :: real

datatype RiskLevel = Low | Medium | High

datatype Direction = Positive | Negative

record FeatureImportance =
  feature :: js_string
  contribution :: real
  direction :: Direction

record AssessmentResult =
  assessmentId :: js_string
  riskLevel :: RiskLevel
  probability :: real
  featureImportances :: "FeatureImportance list"
  subScores :: CognitiveScores
  recommendations :: "js_string list"
  generatedAt :: js_string

text \<open>
  The speech-duration map \<open>speechDurations\<close> is only read at the three identifiers of
  \<open>SPEECH_TASKS\<close>, which are own properties when present, so it is a partial map.
  \<open>expected\<close> and \<open>recorded\<close> are the two arrays of lines 408 and 409.
\<close>

definition expected :: "real list" where
  "expected = map (\<lambda>t. nullish (maxDurationMs t) 60000) SPEECH_TASKS"

definition recorded :: "(js_string \<rightharpoonup> real) \<Rightarrow> real list" where
  "recorded speechDurations =
     map (\<lambda>t. min (nullish (speechDurations (speech_id t)) 0) (nullish (maxDurationMs t) 60000))
       SPEECH_TASKS"

text \<open>
  The callback of \<open>reduce\<close> on line 411 adds \<open>expected[i] ? b / expected[i] : 0\<close>:
  the quotient is taken only when \<open>expected[i]\<close> is truthy (present and not zero).
\<close>

definition ratio_at :: "real list \<Rightarrow> nat \<Rightarrow> real \<Rightarrow> real option" where
  "ratio_at ex i b =
     (case at_index ex i of
        None \<Rightarrow> Some 0
      | Some e \<Rightarrow> if e \<noteq> 0 then js_div b e else Some 0)"

fun reduce_ratio :: "real list \<Rightarrow> real list \<Rightarrow> nat \<Rightarrow> real \<Rightarrow> real option" where
  "reduce_ratio ex [] i a = Some a"
| "reduce_ratio ex (b # bs) i a =
     (case ratio_at ex i b of
        None \<Rightarrow> None
      | Some r \<Rightarrow> reduce_ratio ex bs (Suc i) (a + r))"

definition coverage_of :: "real list \<Rightarrow> real list \<Rightarrow> real option" where
  "coverage_of ex recd =
     (if length recd \<noteq> 0
      then (case reduce_ratio ex recd 0 0 of
              None \<Rightarrow> None
            | Some s \<Rightarrow> js_div s (real (length recd)))
      else Some 0.5)"

definition coverage :: "(js_string \<rightharpoonup> real) \<Rightarrow> real option" where
  "coverage speechDurations = coverage_of expected (recorded speechDurations)"

text \<open>Line 418: the risk level of a probability.\<close>

definition riskLevel_of :: "real \<Rightarrow> RiskLevel" where
  "riskLevel_of p = (if p > 0.66 then High else if p > 0.33 then Medium else Low)"

definition direction_of :: "real \<Rightarrow> Direction" where
  "direction_of v = (if v < 0.5 then Positive else Negative)"

text \<open>
  Lines 399 to 439: the result record of the local heuristic. The assessment identifier
  and the time stamp come from the session and the clock.
\<close>

definition heuristic ::
  "js_string \<Rightarrow> js_string \<Rightarrow> CognitiveScores \<Rightarrow> (js_string \<rightharpoonup> real) \<Rightarrow> AssessmentResult option"
where
  "heuristic aid now scores speechDurations =
     (let mem = min 1 (memoryScore scores / 2);
          att = min 1 (attentionScore scores / 4);
          lang = min 1 (languageScore scores / 1);
          exec = min 1 (executiveScore scores / 1);
          cognitiveAvg = (mem + att + lang + exec) / 4
      in case coverage speechDurations of
           None \<Rightarrow> None
         | Some cov \<Rightarrow>
             (let p0 = 1 - (0.7 * cognitiveAvg + 0.3 * cov);
                  p = min 0.98 (max 0.02 p0)
              in Some
                \<lparr>assessmentId = aid,
                 riskLevel = riskLevel_of p,
                 probability = p,
                 featureImportances =
                   [\<lparr>feature = js ''memory_score'', contribution = 0.5 - mem,
                     direction = direction_of mem\<rparr>,
                    \<lparr>feature = js ''attention_score'', contribution = 0.5 - att,
                     direction = direction_of att\<rparr>,
                    \<lparr>feature = js ''language_score'', contribution = 0.5 - lang,
                     direction = direction_of lang\<rparr>,
                    \<lparr>feature = js ''executive_score'', contribution = 0.5 - exec,
                     direction = direction_of exec\<rparr>,
                    \<lparr>feature = js ''speech_coverage'', contribution = 0.5 - min 1 cov,
                     direction = direction_of cov\<rparr>],
                 subScores = scores,
                 recommendations =
                   [js ''Try a longer picture description (aim for ~60'' @ [8211] @ js ''90s).'',
                    js ''Practice digit span and word recall to boost attention and memory.'',
                    js ''Share this report with a clinician for guidance'' @ [8212]
                      @ js ''this is not a diagnosis.''],
                 generatedAt = now\<rparr>))"

section \<open>The task generator\<close>

subsection \<open>The random source and shuffle\<close>

text \<open>
  \<open>shuffle\<close> copies the array and sorts the copy with a comparator that answers at
  random. The sort is the engine's and its comparisons are not in this repository; with
  such a comparator the order of the result is left to the engine, and what every engine
  returns is a rearrangement of the array, picked by the random draws. The random source
  is modelled as the list of the draws still to come (a draw past the end is 0),
  threaded through every call, and \<open>shuffle\<close> as the selection that takes one draw
  for each position: every draw sequence gives a rearrangement, and every rearrangement
  is given by some draw sequence (\<open>shuffle_perm\<close> and \<open>shuffle_reaches\<close> below), so
  a property proved for every random source holds for whatever the engine returns.
\<close>

type_synonym rng = "nat list"

definition next_draw :: "rng \<Rightarrow> nat \<times> rng" where
  "next_draw g = (case g of [] \<Rightarrow> (0, []) | k # ks \<Rightarrow> (k, ks))"

fun pick_all :: "nat \<Rightarrow> 'a list \<Rightarrow> rng \<Rightarrow> 'a list \<times> rng" where
  "pick_all 0 xs g = ([], g)"
| "pick_all (Suc n) xs g =
     (if xs = [] then ([], g)
      else (let (k, g1) = next_draw g;
                i = k mod length xs;
                (ys, g2) = pick_all n (take i xs @ drop (Suc i) xs) g1
            in (xs ! i # ys, g2)))"

definition shuffle :: "'a list \<Rightarrow> rng \<Rightarrow> 'a list \<times> rng" where
  "shuffle arr g = pick_all (length arr) arr g"

subsection \<open>Array and string helpers of the language\<close>

text \<open>\<open>indexOf\<close>: the first index holding the element, or \<open>-1\<close>.\<close>

fun indexOf :: "'a list \<Rightarrow> 'a \<Rightarrow> int" where
  "indexOf [] x = - 1"
| "indexOf (y # ys) x =
     (if y = x then 0 else (let r = indexOf ys x in if r = - 1 then - 1 else r + 1))"

text \<open>Reading \<open>xs[i]\<close> at an integer index: \<open>undefined\<close> at \<open>-1\<close> and past the end.\<close>

definition at_int :: "'a list \<Rightarrow> int \<Rightarrow> 'a option" where
  "at_int xs i = (if 0 \<le> i \<and> i < int (length xs) then Some (xs ! nat i) else None)"

fun join :: "js_string \<Rightarrow> js_string list \<Rightarrow> js_string" where
  "join sep [] = []"
| "join sep [x] = x"
| "join sep (x # y # zs) = x @ sep @ join sep (y # zs)"

text \<open>
  \<open>Array.from(new Set(xs))\<close>: the elements in the order of their first occurrence.
\<close>

definition set_add :: "'a list \<Rightarrow> 'a \<Rightarrow> 'a list" where
  "set_add acc x = (if x \<in> set acc then acc else acc @ [x])"

definition from_Set :: "'a list \<Rightarrow> 'a list" where
  "from_Set xs = foldl set_add [] xs"

text \<open>
  \<open>String(d)\<close> for the non-negative integers the digit tasks are built from: the
  decimal digits, most significant first.
\<close>

fun String_of :: "nat \<Rightarrow> js_string" where
  "String_of n = (if n < 10 then [48 + n] else String_of (n div 10) @ [48 + n mod 10])"

declare String_of.simps [simp del]

subsection \<open>Tasks\<close>

datatype TaskType = WordRecall | DigitSpan | Attention | ClockDrawing

record CognitiveTask =
  task_id :: js_string
  task_type :: TaskType
  title :: js_string
  description :: js_string
  prompt :: js_string
  options :: "js_string list option"
  sequenceAnswer :: "int list option"
  correctAnswer :: "int option"

definition makeWordRecallTask ::
  "js_string \<Rightarrow> js_string \<Rightarrow> js_string list \<Rightarrow> rng \<Rightarrow> CognitiveTask \<times> rng"
where
  "makeWordRecallTask i ttl words g =
     (let (opts, g1) = shuffle words g;
          sa = map (\<lambda>w. indexOf opts w) words
      in (\<lparr>task_id = i, task_type = WordRecall, title = ttl,
           description =
             js ''Remember the list of words and tap them in the same order after Begin.'',
           prompt = js ''Remember the words: '' @ join (js '', '') words @ js ''.'',
           options = Some opts, sequenceAnswer = Some sa, correctAnswer = None\<rparr>, g1))"

definition makeDigitSpanTask ::
  "js_string \<Rightarrow> js_string \<Rightarrow> nat list \<Rightarrow> rng \<Rightarrow> CognitiveTask \<times> rng"
where
  "makeDigitSpanTask i ttl digits g =
     (let (ten, g1) = shuffle [0, 1, 2, 3, 4, 5, 6, 7, 8, 9] g;
          (pool, g2) = shuffle (from_Set (digits @ take 5 ten)) g1;
          opts = map String_of pool;
          sa = map (\<lambda>d. indexOf opts (String_of d)) digits
      in (\<lparr>task_id = i, task_type = DigitSpan, title = ttl,
           description = js ''Tap the digits in the exact order after Begin.'',
           prompt = join (js '', '') (map String_of digits),
           options = Some opts, sequenceAnswer = Some sa, correctAnswer = None\<rparr>, g2))"

subsection \<open>The lexicon\<close>

text \<open>
  \<open>WORDS_BY_LANG\<close> is an object literal: reading it at a key gives the own property
  of that name when there is one, otherwise the property of that name inherited from
  \<open>Object.prototype\<close> (a function, or the prototype object itself for
  \<open>__proto__\<close>), otherwise \<open>undefined\<close>. Only \<open>undefined\<close> is replaced by
  \<open>??\<close>. An inherited value is not iterable, and spreading it in \<open>shuffle\<close>
  throws a \<open>TypeError\<close>. \<open>Rejected\<close> is the error of a call to an external
  service that throws or whose promise rejects.
\<close>

datatype js_error = TypeError | Rejected

datatype 'a property = Own 'a | Inherited | Undefined

definition Object_prototype_names :: "js_string list" where
  "Object_prototype_names =
     [js ''constructor'', js ''__defineGetter__'', js ''__defineSetter__'',
      js ''hasOwnProperty'', js ''__lookupGetter__'', js ''__lookupSetter__'',
      js ''isPrototypeOf'', js ''propertyIsEnumerable'', js ''toString'', js ''valueOf'',
      js ''__proto__'', js ''toLocaleString'']"

definition get_property :: "(js_string \<times> 'a) list \<Rightarrow> js_string \<Rightarrow> 'a property" where
  "get_property obj k =
     (case map_of obj k of
        Some v \<Rightarrow> Own v
      | None \<Rightarrow> if k \<in> set Object_prototype_names then Inherited else Undefined)"

definition WORDS_en :: "js_string list" where
  "WORDS_en =
     [js ''Apple'', js ''Train'', js ''Moon'', js ''Garden'', js ''Candle'', js ''Bridge'',
      js ''Star'', js ''Window'', js ''River'', js ''Mirror'', js ''Bottle'']"

definition WORDS_hi :: "js_string list" where
  "WORDS_hi =
     [[2360, 2375, 2348],
      [2352, 2375, 2354],
      [2330, 2366, 2305, 2342],
      [2348, 2366, 2327],
      [2350, 2379, 2350, 2348, 2340, 2381, 2340, 2368],
      [2346, 2369, 2354],
      [2340, 2366, 2352, 2366],
      [2326, 2367, 2337, 2364, 2325, 2368],
      [2344, 2342, 2368],
      [2310, 2312, 2344, 2366],
      [2348, 2379, 2340, 2354]]"

definition WORDS_bn :: "js_string list" where
  "WORDS_bn =
     [[2438, 2474, 2503, 2482],
      [2463, 2509, 2480, 2503, 2472],
      [2458, 2494, 2433, 2470],
      [2441, 2470, 2509, 2479, 2494, 2472],
      [2478, 2507, 2478, 2476, 2494, 2468, 2495],
      [2488, 2503, 2468, 2497],
      [2468, 2494, 2480, 2453, 2494],
      [2460, 2494, 2472, 2494, 2482, 2494],
      [2472, 2470, 2496],
      [2438, 2479, 2492, 2472, 2494],
      [2476, 2507, 2468, 2482]]"

definition WORDS_ta :: "js_string list" where
  "WORDS_ta =
     [[2950, 2986, 3021, 2986, 3007, 2995, 3021],
      [2992, 2991, 3007, 2994, 3021],
      [2984, 3007, 2994, 3006],
      [2980, 3019, 2975, 3021, 2975, 2990, 3021],
      [32, 2990, 3014, 2996, 3009, 2965, 3009, 2997, 2992, 3021, 2980, 3021, 2980, 3007],
      [2986, 3006, 2994, 2990, 3021],
      [2984, 2975, 3021, 2970, 2980, 3021, 2980, 3007, 2992, 2990, 3021],
      [2972, 2985, 3021, 2985, 2994, 3021],
      [2984, 2980, 3007],
      [2965, 2979, 3021, 2979, 3006, 2975, 3007],
      [2986, 3006, 2975, 3021, 2975, 3007, 2994, 3021]]"

definition WORDS_BY_LANG :: "(js_string \<times> js_string list) list" where
  "WORDS_BY_LANG =
     [(js ''en'', WORDS_en), (js ''hi'', WORDS_hi), (js ''bn'', WORDS_bn),
      (js ''ta'', WORDS_ta)]"

subsection \<open>generateCognitiveTasks\<close>

definition attention1 :: CognitiveTask where
  "attention1 =
     \<lparr>task_id = js ''attention-sequence'', task_type = Attention,
      title = js ''Attention Pattern'',
      description = js ''Continue the color sequence.'',
      prompt = js ''Red '' @ [8594] @ js '' Blue '' @ [8594] @ js '' Red '' @ [8594]
        @ js '' Blue '' @ [8594] @ js '' ?'',
      options = Some [js ''Red'', js ''Blue'', js ''Green''],
      sequenceAnswer = None, correctAnswer = Some 0\<rparr>"

definition visualSearch :: CognitiveTask where
  "visualSearch =
     \<lparr>task_id = js ''attention-visual'', task_type = Attention,
      title = js ''Visual Search'',
      description = js ''Find the odd-one-out.'',
      prompt = js ''Square, Square, Circle, Square '' @ [8594] @ js '' Which is different?'',
      options = Some [js ''Circle'', js ''Square'', js ''Triangle''],
      sequenceAnswer = None, correctAnswer = Some 0\<rparr>"

definition clock :: CognitiveTask where
  "clock =
     \<lparr>task_id = js ''clock-drawing'', task_type = ClockDrawing,
      title = js ''Clock Drawing'',
      description = js ''Imagine drawing a clock showing the time 10 past 11.'',
      prompt =
        js ''Picture a clock and describe how you would place the numbers and hands for 11:10.'',
      options = None, sequenceAnswer = None, correctAnswer = None\<rparr>"

text \<open>
  The tasks built from a word list (lines 105 to 142). The calls of \<open>shuffle\<close>,
  here and inside the task builders, take their draws in the order of the source.
\<close>

definition tasks_from_lexicon :: "js_string list \<Rightarrow> rng \<Rightarrow> CognitiveTask list \<times> rng" where
  "tasks_from_lexicon lexicon g =
     (let (sA, g1) = shuffle lexicon g;
          poolA = take 5 sA;
          (sB, g2) = shuffle (filter (\<lambda>w. w \<notin> set poolA) lexicon) g1;
          poolB = take 5 sB;
          (word1, g3) = makeWordRecallTask (js ''word-recall'') (js ''Word Recall'') poolA g2;
          (word2, g4) =
            makeWordRecallTask (js ''word-recall-2'') (js ''Word Recall II'') poolB g3;
          (digit1, g5) =
            makeDigitSpanTask (js ''digit-span'') (js ''Digit Span'') [3, 9, 1, 4, 7] g4;
          (digit2, g6) =
            makeDigitSpanTask (js ''digit-span-reverse'') (js ''Digit Span (Reverse)'')
              [7, 2, 9, 3] g5
      in ([word1, digit1, attention1, word2, digit2, visualSearch, clock], g6))"

definition generateCognitiveTasks ::
  "js_string \<Rightarrow> rng \<Rightarrow> js_error + CognitiveTask list \<times> rng"
where
  "generateCognitiveTasks language g =
     (case get_property WORDS_BY_LANG language of
        Own lexicon \<Rightarrow> Inr (tasks_from_lexicon lexicon g)
      | Undefined \<Rightarrow> Inr (tasks_from_lexicon WORDS_en g)
      | Inherited \<Rightarrow> Inl TypeError)"

section \<open>The chat widget (Chatbot.tsx)\<close>

subsection \<open>Regular expressions\<close>

text \<open>
  The patterns of \<open>KB\<close> use literals, alternation, grouping, \<open>?\<close>, \<open>+\<close> and
  \<open>\s\<close>, under the flag \<open>i\<close> and without the flags \<open>g\<close> and \<open>y\<close>, so that
  \<open>test\<close> keeps no state and answers whether some substring of the query is in the
  language of the pattern. Matching is by derivatives. Under \<open>i\<close> without \<open>u\<close>, two
  code units match when their canonical (upper-case) forms agree, and a code unit
  outside ASCII never has an ASCII canonical form: against the ASCII literals of the
  patterns only the two cases of the letter match, which \<open>canonicalize\<close> gives.
\<close>

datatype regex =
  Never
  | Empty
  | Unit nat
  | Space
  | Seq regex regex
  | Either regex regex
  | Many regex

definition canonicalize :: "nat \<Rightarrow> nat" where
  "canonicalize c = (if 97 \<le> c \<and> c \<le> 122 then c - 32 else c)"

definition is_space :: "nat \<Rightarrow> bool" where
  "is_space c =
     (c \<in> set [9, 10, 11, 12, 13, 32, 160, 5760, 8232, 8233, 8239, 8287, 12288, 65279]
      \<or> (8192 \<le> c \<and> c \<le> 8202))"

fun nullable :: "regex \<Rightarrow> bool" where
  "nullable Never = False"
| "nullable Empty = True"
| "nullable (Unit b) = False"
| "nullable Space = False"
| "nullable (Seq r s) = (nullable r \<and> nullable s)"
| "nullable (Either r s) = (nullable r \<or> nullable s)"
| "nullable (Many r) = True"

text \<open>Sequence and alternation, with the empty language and the empty word absorbed.\<close>

fun seq :: "regex \<Rightarrow> regex \<Rightarrow> regex" where
  "seq Never s = Never"
| "seq Empty s = s"
| "seq r s = Seq r s"

fun either :: "regex \<Rightarrow> regex \<Rightarrow> regex" where
  "either Never s = s"
| "either r Never = r"
| "either r s = Either r s"

fun deriv :: "nat \<Rightarrow> regex \<Rightarrow> regex" where
  "deriv c Never = Never"
| "deriv c Empty = Never"
| "deriv c (Unit b) = (if canonicalize c = canonicalize b then Empty else Never)"
| "deriv c Space = (if is_space c then Empty else Never)"
| "deriv c (Seq r s) =
     (if nullable r then either (seq (deriv c r) s) (deriv c s) else seq (deriv c r) s)"
| "deriv c (Either r s) = either (deriv c r) (deriv c s)"
| "deriv c (Many r) = seq (deriv c r) (Many r)"

text \<open>Some prefix of the string is in the language of the pattern.\<close>

fun matches_here :: "regex \<Rightarrow> js_string \<Rightarrow> bool" where
  "matches_here r [] = nullable r"
| "matches_here r (c # cs) = (if nullable r then True else matches_here (deriv c r) cs)"

text \<open>\<open>r.test(s)\<close>: a match starts at some position of the string.\<close>

fun regex_test :: "regex \<Rightarrow> js_string \<Rightarrow> bool" where
  "regex_test r [] = matches_here r []"
| "regex_test r (c # cs) = (if matches_here r (c # cs) then True else regex_test r cs)"

fun lit :: "string \<Rightarrow> regex" where
  "lit [] = Empty"
| "lit [c] = Unit (of_char c)"
| "lit (c # d # cs) = Seq (Unit (of_char c)) (lit (d # cs))"

definition optional :: "regex \<Rightarrow> regex" where
  "optional r = Either r Empty"

definition one_or_more :: "regex \<Rightarrow> regex" where
  "one_or_more r = Seq r (Many r)"

fun one_of :: "regex list \<Rightarrow> regex" where
  "one_of [] = Never"
| "one_of [r] = r"
| "one_of (r # s # rs) = Either r (one_of (s # rs))"

subsection \<open>The language of a pattern\<close>

text \<open>
  What a pattern matches, as a set of strings; the matcher above is compared with it in
  \<open>regex_test_iff\<close>.
\<close>

inductive_set repeated :: "js_string set \<Rightarrow> js_string set" for A :: "js_string set" where
  none: "[] \<in> repeated A"
| more: "u \<in> A \<Longrightarrow> v \<in> repeated A \<Longrightarrow> u @ v \<in> repeated A"

fun lang :: "regex \<Rightarrow> js_string set" where
  "lang Never = {}"
| "lang Empty = {[]}"
| "lang (Unit b) = {w. \<exists>c. w = [c] \<and> canonicalize c = canonicalize b}"
| "lang Space = {w. \<exists>c. w = [c] \<and> is_space c}"
| "lang (Seq r s) = {w. \<exists>u v. w = u @ v \<and> u \<in> lang r \<and> v \<in> lang s}"
| "lang (Either r s) = lang r \<union> lang s"
| "lang (Many r) = repeated (lang r)"

subsection \<open>The knowledge base and fallbackAnswer\<close>

record KB_item =
  kb_q :: regex
  kb_a :: js_string

definition KB :: "KB_item list" where
  "KB =
    [\<lparr>kb_q = Seq (optional (Seq (lit ''what'') (Seq (one_or_more Space)
            (Seq (lit ''is'') (one_or_more Space))))) (lit ''dementia''),
      kb_a = js ''Dementia is a syndrome affecting memory, thinking, behavior and the ability to perform everyday activities. Alzheimer's disease is the most common cause.''\<rparr>,
     \<lparr>kb_q = one_of [lit ''symptom'', lit ''sign'', lit ''memory'', lit ''forget''],
      kb_a = js ''Common signs: memory loss, difficulty planning, confusion about time/place, language problems, poor judgment, mood/behavior changes.''\<rparr>,
     \<lparr>kb_q = one_of [lit ''risk'', lit ''cause''],
      kb_a = js ''Risk factors: age, family history, cardiovascular disease, diabetes, head injury, low physical/social activity.''\<rparr>,
     \<lparr>kb_q = one_of [lit ''prevent'', lit ''reduce'', lit ''lifestyle''],
      kb_a = js ''Healthy diet, exercise, cognitive and social engagement, good sleep, and blood pressure control may reduce risk.''\<rparr>,
     \<lparr>kb_q = one_of [lit ''diagnos'', lit ''test'', lit ''screen''],
      kb_a = js ''Diagnosis: clinical history, cognitive tests, labs, and imaging. Early screening helps plan care. Always consult a clinician.''\<rparr>,
     \<lparr>kb_q = one_of [lit ''treat'', lit ''cure'', lit ''medicat''],
      kb_a = js ''No cure for most dementias, but medicines and therapies can help manage symptoms and enhance quality of life.''\<rparr>]"

text \<open>The loop of \<open>fallbackAnswer\<close> returns at the first item whose pattern matches.\<close>

fun fallback_loop :: "KB_item list \<Rightarrow> js_string \<Rightarrow> js_string" where
  "fallback_loop [] query =
     js ''I can share general information about dementia (not medical advice). Ask about symptoms, risk factors, prevention, diagnosis, or treatment.''"
| "fallback_loop (item # items) query =
     (if regex_test (kb_q item) query
      then kb_a item @ js '' (This is general info, not medical advice)''
      else fallback_loop items query)"

definition fallbackAnswer :: "js_string \<Rightarrow> js_string" where
  "fallbackAnswer query = fallback_loop KB query"

subsection \<open>handleSend\<close>

datatype Role = User | Bot

record Msg =
  role :: Role
  msg_text :: js_string

datatype ChatRole = System | Assistant | Human

record ChatMessage =
  chat_role :: ChatRole
  content :: js_string

text \<open>
  The component state that \<open>handleSend\<close> reads and writes, and its environment: the
  API key of the build and the remote completion call, which answers a request (the
  messages and \<open>max_tokens\<close>) with a text or throws.
\<close>

record chat_state =
  input :: js_string
  loading :: bool
  messages :: "Msg list"

record chat_env =
  apiKey :: "js_string option"
  chatDeepSeek :: "ChatMessage list \<Rightarrow> nat \<Rightarrow> js_error + js_string"

definition initial_messages :: "Msg list" where
  "initial_messages =
     [\<lparr>role = Bot,
       msg_text = js ''Hi! How can I help you with dementia-related questions? This is general information, not medical advice.''\<rparr>]"

text \<open>\<open>trim\<close> removes white space and line terminators at both ends.\<close>

definition trim :: "js_string \<Rightarrow> js_string" where
  "trim s = rev (dropWhile is_space (rev (dropWhile is_space s)))"

definition sys :: ChatMessage where
  "sys =
     \<lparr>chat_role = System,
      content =
        js ''You are a helpful dementia information assistant for a cognitive screening app. Answer concisely in 3''
        @ [8211]
        @ js ''6 bullet points, plain language, India-friendly context, and always include: 'This is general information, not medical advice.' If user asks for diagnosis/treatment, recommend consulting a clinician. Avoid claiming to diagnose or store PII.''\<rparr>"

text \<open>
  \<open>callDeepSeek\<close> returns the answer and the requests it sent to the remote service.
  An absent or empty key is falsy.
\<close>

definition callDeepSeek ::
  "chat_env \<Rightarrow> Msg list \<Rightarrow> js_string \<Rightarrow> js_string \<times> ChatMessage list list"
where
  "callDeepSeek env msgs0 query =
     (if apiKey env = None \<or> apiKey env = Some [] then (fallbackAnswer query, [])
      else (let historyMsgs =
                  map (\<lambda>m. \<lparr>chat_role = (if role m = Bot then Assistant else Human),
                                content = msg_text m\<rparr>) msgs0;
                msgs = [sys] @ historyMsgs @ [\<lparr>chat_role = Human, content = query\<rparr>]
            in case chatDeepSeek env msgs 300 of
                 Inr txt \<Rightarrow> (txt, [msgs])
               | Inl e \<Rightarrow> (fallbackAnswer query, [msgs])))"

text \<open>
  \<open>handleSend\<close>, run to its end on the state of the render that created it: the new
  state and the requests sent. The history passed to \<open>callDeepSeek\<close> is the
  \<open>messages\<close> of that render, without the message just appended; the two appends
  are functional updates of the transcript.
\<close>

definition handleSend :: "chat_env \<Rightarrow> chat_state \<Rightarrow> chat_state \<times> ChatMessage list list" where
  "handleSend env st =
     (let query = trim (input st)
      in if query = [] \<or> loading st then (st, [])
         else (let st1 = st\<lparr>input := [],
                            messages := messages st @ [\<lparr>role = User, msg_text = query\<rparr>],
                            loading := True\<rparr>;
                   (answer, sent) = callDeepSeek env (messages st) query;
                   st2 = st1\<lparr>messages := messages st1 @ [\<lparr>role = Bot, msg_text = answer\<rparr>],
                             loading := False\<rparr>
               in (st2, sent)))"

section \<open>handleCognitiveComplete\<close>

text \<open>
  The handler runs on the session (assessment identifier, user, authentication), the
  speech durations and the view state, against the remote services. Each call to a
  service either returns or throws; the environment fixes which, for the polled fetch by
  the number of the call. An error of \<open>submitCognitiveData\<close> or of
  \<open>requestRiskPrediction\<close> is swallowed where it is raised and changes nothing, so the
  environment does not record it. What the handler does to the outside is the list of
  its events, in order.
\<close>

datatype Provider = Firebase | Local

datatype store = CloudStore | EncryptedStore | BrowserStore

datatype event =
  Toast js_string js_string
  | SubmitCognitiveData
  | RequestRiskPrediction
  | FetchAssessmentResult nat
  | Sleep nat
  | Save store

record 'l CognitiveCompletionPayload =
  logs :: 'l
  scores :: CognitiveScores
  clockDrawing :: "js_string option"

record session =
  session_assessmentId :: "js_string option"
  session_user :: "js_string option"
  session_auth :: "Provider option"
  speechDurations :: "js_string \<rightharpoonup> real"

record view_state =
  activeStepIndex :: nat
  isLoading :: bool
  isResultPending :: bool
  result :: "AssessmentResult option"
  history :: "AssessmentResult list"

record remote_env =
  fetchAssessmentResult :: "nat \<Rightarrow> js_error + AssessmentResult"
  save_and_load :: "store \<Rightarrow> AssessmentResult \<Rightarrow> js_error + AssessmentResult list"

definition USE_LOCAL_HEURISTIC :: bool where
  "USE_LOCAL_HEURISTIC = True"

text \<open>
  Saving the result and reloading the history (lines 442 to 455 and 477 to 490): the
  store follows the provider, and an error of the store is swallowed.
\<close>

definition persist_result ::
  "remote_env \<Rightarrow> Provider option \<Rightarrow> AssessmentResult \<Rightarrow> view_state \<Rightarrow> event list \<times> view_state"
where
  "persist_result env auth r st =
     (let target = (case auth of
                      Some Firebase \<Rightarrow> CloudStore
                    | Some Local \<Rightarrow> EncryptedStore
                    | None \<Rightarrow> BrowserStore)
      in case save_and_load env target r of
           Inl e \<Rightarrow> ([Save target], st)
         | Inr arr \<Rightarrow> ([Save target], st\<lparr>history := arr\<rparr>))"

text \<open>
  The polling loop of lines 466 to 474, from iteration \<open>i\<close>: the fetched result, if
  any, and the events. A fetch that returns gives a result record, which is truthy in
  the test of line 475.
\<close>

function poll :: "(nat \<Rightarrow> js_error + AssessmentResult) \<Rightarrow> nat \<Rightarrow> AssessmentResult option \<times> event list"
where
  "poll fetch i =
     (if i < 15
      then (case fetch i of
              Inr r \<Rightarrow> (Some r, [FetchAssessmentResult i])
            | Inl e \<Rightarrow>
                (let (fetched, evs) = poll fetch (Suc i)
                 in (fetched, FetchAssessmentResult i # Sleep 1000 # evs)))
      else (None, []))"
  by pat_completeness auto
termination
  by (relation "measure (\<lambda>(fetch, i). 15 - i)") auto

declare poll.simps [simp del]

definition pending_toast :: event where
  "pending_toast =
     Toast (js ''Prediction pending'')
       (js ''Result is taking longer than usual. Please wait a few seconds and retry.'')"

text \<open>Lines 460 to 494: the remote path.\<close>

definition remote_path ::
  "remote_env \<Rightarrow> Provider option \<Rightarrow> view_state \<Rightarrow> event list \<times> view_state"
where
  "remote_path env auth st =
     (let (fetched, evs) = poll (fetchAssessmentResult env) 0
      in case fetched of
           Some r \<Rightarrow>
             (let (saved, st1) = persist_result env auth r (st\<lparr>result := Some r\<rparr>)
              in (RequestRiskPrediction # evs @ saved, st1\<lparr>isResultPending := False\<rparr>))
         | None \<Rightarrow>
             (RequestRiskPrediction # evs @ [pending_toast], st\<lparr>isResultPending := False\<rparr>))"

text \<open>
  The handler, with the constant \<open>USE_LOCAL_HEURISTIC\<close> as a parameter. The value
  \<open>None\<close> stands for a number of the estimator that is not finite; every awaited call
  stands in a \<open>try\<close> of its own, so no error reaches the outer \<open>catch\<close>.
\<close>

definition handleCognitiveComplete_with ::
  "bool \<Rightarrow> remote_env \<Rightarrow> session \<Rightarrow> js_string \<Rightarrow> 'l CognitiveCompletionPayload \<Rightarrow> view_state
     \<Rightarrow> (event list \<times> view_state) option"
where
  "handleCognitiveComplete_with use_local env sess now payload st =
     (if nullish (session_assessmentId sess) [] = [] \<or> session_user sess = None
      then Some ([Toast (js ''Assessment not started'')
                    (js ''Please complete onboarding first.'')], st)
      else (let aid = nullish (session_assessmentId sess) [];
                st1 = st\<lparr>isLoading := True,
                          activeStepIndex := min (activeStepIndex st + 1) 3,
                          isResultPending := True\<rparr>
            in if use_local
               then (case heuristic aid now (scores payload) (speechDurations sess) of
                       None \<Rightarrow> None
                     | Some h \<Rightarrow>
                         (let (saved, st2) =
                                persist_result env (session_auth sess) h (st1\<lparr>result := Some h\<rparr>)
                          in Some (SubmitCognitiveData # saved,
                                   st2\<lparr>isResultPending := False, isLoading := False\<rparr>)))
               else (let (evs, st2) = remote_path env (session_auth sess) st1
                     in Some (SubmitCognitiveData # evs, st2\<lparr>isLoading := False\<rparr>))))"

definition handleCognitiveComplete ::
  "remote_env \<Rightarrow> session \<Rightarrow> js_string \<Rightarrow> 'l CognitiveCompletionPayload \<Rightarrow> view_state
     \<Rightarrow> (event list \<times> view_state) option"
where
  "handleCognitiveComplete = handleCognitiveComplete_with USE_LOCAL_HEURISTIC"

section \<open>The specification's words\<close>

text \<open>
  The definitions of this section follow the wording of the specification, not the
  code; the theorems compare them with the definitions above.
\<close>

definition spec_normalized :: "real \<Rightarrow> real \<Rightarrow> real" where
  "spec_normalized score mx = min 1 (score / mx)"

definition spec_cognitive_aggregate :: "CognitiveScores \<Rightarrow> real" where
  "spec_cognitive_aggregate s =
     (spec_normalized (memoryScore s) 2 + spec_normalized (attentionScore s) 4
      + spec_normalized (languageScore s) 1 + spec_normalized (executiveScore s) 1) / 4"

definition spec_clamp :: "real \<Rightarrow> real \<Rightarrow> real \<Rightarrow> real" where
  "spec_clamp lo hi x = (if x < lo then lo else if hi < x then hi else x)"

definition spec_probability :: "CognitiveScores \<Rightarrow> real \<Rightarrow> real" where
  "spec_probability s cov =
     spec_clamp 0.02 0.98 (1 - (0.7 * spec_cognitive_aggregate s + 0.3 * cov))"

text \<open>
  The ratio of one speech task: the recorded duration (0 when the task has no recording)
  over the maximum allowed duration, capped at 1.
\<close>

definition spec_ratio :: "(js_string \<rightharpoonup> real) \<Rightarrow> SpeechTask \<Rightarrow> real" where
  "spec_ratio d t = min 1 (nullish (d (speech_id t)) 0 / nullish (maxDurationMs t) 60000)"

text \<open>
  Coverage as the specification words it: the mean ratio over the tasks attempted (those
  with a recorded duration), and 0.5 when there is none.
\<close>

definition spec_attempted :: "(js_string \<rightharpoonup> real) \<Rightarrow> SpeechTask list" where
  "spec_attempted d = filter (\<lambda>t. d (speech_id t) \<noteq> None) SPEECH_TASKS"

definition spec_coverage :: "(js_string \<rightharpoonup> real) \<Rightarrow> real" where
  "spec_coverage d =
     (if spec_attempted d = [] then 0.5
      else sum_list (map (spec_ratio d) (spec_attempted d)) / real (length (spec_attempted d)))"

text \<open>The canned answers and the two fixed texts of \<open>fallbackAnswer\<close>, by name.\<close>

definition dementia_answer :: js_string where
  "dementia_answer =
     js ''Dementia is a syndrome affecting memory, thinking, behavior and the ability to perform everyday activities. Alzheimer's disease is the most common cause.''"

definition risk_cause_answer :: js_string where
  "risk_cause_answer =
     js ''Risk factors: age, family history, cardiovascular disease, diabetes, head injury, low physical/social activity.''"

definition disclaimer :: js_string where
  "disclaimer = js '' (This is general info, not medical advice)''"

definition generic_answer :: js_string where
  "generic_answer =
     js ''I can share general information about dementia (not medical advice). Ask about symptoms, risk factors, prevention, diagnosis, or treatment.''"

text \<open>
  The events of the failed polling attempts number \<open>i\<close> up to \<open>k\<close> (excluded): each
  is a fetch followed by a sleep of one second.
\<close>

definition failed_attempts :: "nat \<Rightarrow> nat \<Rightarrow> event list" where
  "failed_attempts i k = concat (map (\<lambda>j. [FetchAssessmentResult j, Sleep 1000]) [i..<k])"

fun is_fetch :: "event \<Rightarrow> bool" where
  "is_fetch (FetchAssessmentResult j) = True"
| "is_fetch e = False"

text \<open>
  The prompt of a list-recall task, from the items in their prompted order: the words
  inside the sentence of \<open>makeWordRecallTask\<close>, the digits joined by commas.
\<close>

definition spec_prompt :: "TaskType \<Rightarrow> js_string list \<Rightarrow> js_string" where
  "spec_prompt ty items =
     (if ty = WordRecall then js ''Remember the words: '' @ join (js '', '') items @ js ''.''
      else join (js '', '') items)"

text \<open>
  A task set as the claim describes it: seven tasks; exactly two word-recall tasks, and
  their option lists share no word; and for every task with a correct-sequence answer,
  reading the options at the answer's indices, position by position, gives the items of
  the prompt in their order.
\<close>

definition spec_recall_ok :: "CognitiveTask \<Rightarrow> bool" where
  "spec_recall_ok t =
     (case sequenceAnswer t of
        None \<Rightarrow> True
      | Some sa \<Rightarrow>
          (case options t of
             None \<Rightarrow> False
           | Some opts \<Rightarrow>
               list_all (\<lambda>v. v \<noteq> None) (map (at_int opts) sa)
               \<and> prompt t = spec_prompt (task_type t) (map (\<lambda>k. nullish (at_int opts k) []) sa)))"

definition spec_task_set :: "CognitiveTask list \<Rightarrow> bool" where
  "spec_task_set tasks =
     (length tasks = 7
      \<and> (case filter (\<lambda>t. task_type t = WordRecall) tasks of
           [w1, w2] \<Rightarrow> set (nullish (options w1) []) \<inter> set (nullish (options w2) []) = {}
         | _ \<Rightarrow> False)
      \<and> list_all spec_recall_ok tasks)"

text \<open>The order of the risk levels: Low, Medium, High.\<close>

fun spec_level_rank :: "RiskLevel \<Rightarrow> nat" where
  "spec_level_rank Low = 0"
| "spec_level_rank Medium = 1"
| "spec_level_rank High = 2"

section \<open>Sample inputs\<close>

definition zero_scores :: CognitiveScores where
  "zero_scores = \<lparr>memoryScore = 0, attentionScore = 0, languageScore = 0, executiveScore = 0\<rparr>"

definition max_scores :: CognitiveScores where
  "max_scores = \<lparr>memoryScore = 2, attentionScore = 4, languageScore = 1, executiveScore = 1\<rparr>"

definition chat_offline :: chat_env where
  "chat_offline = \<lparr>apiKey = None, chatDeepSeek = (\<lambda>msgs max_tokens. Inl Rejected)\<rparr>"

definition chat_blank :: chat_state where
  "chat_blank = \<lparr>input = js ''   '', loading = False, messages = initial_messages\<rparr>"

definition chat_hello :: chat_state where
  "chat_hello = \<lparr>input = js '' hello '', loading = False, messages = initial_messages\<rparr>"

definition services_down :: remote_env where
  "services_down =
     \<lparr>fetchAssessmentResult = (\<lambda>n. Inl Rejected), save_and_load = (\<lambda>target r. Inl Rejected)\<rparr>"

definition sample_result :: AssessmentResult where
  "sample_result =
     \<lparr>assessmentId = js ''a1'', riskLevel = Low, probability = 0.2, featureImportances = [],
      subScores = max_scores, recommendations = [], generatedAt = js ''2024''\<rparr>"

definition ready_on_third :: remote_env where
  "ready_on_third =
     \<lparr>fetchAssessmentResult = (\<lambda>n. if n < 2 then Inl Rejected else Inr sample_result),
      save_and_load = (\<lambda>target r. Inr [r])\<rparr>"

definition sample_session :: session where
  "sample_session =
     \<lparr>session_assessmentId = Some (js ''a1''), session_user = Some (js ''u1''),
      session_auth = None, speechDurations = Map.empty\<rparr>"

definition sample_payload :: "unit CognitiveCompletionPayload" where
  "sample_payload = \<lparr>logs = (), scores = zero_scores, clockDrawing = None\<rparr>"

definition sample_view :: view_state where
  "sample_view =
     \<lparr>activeStepIndex = 2, isLoading = False, isResultPending = False, result = None,
      history = []\<rparr>"

section \<open>Properties of the estimator\<close>

subsection \<open>Speech coverage\<close>

lemma expected_eq: "expected = [90000, 120000, 90000]"
  by (simp add: expected_def SPEECH_TASKS_def nullish_def)

lemma capped_ratio: "0 < m \<Longrightarrow> min x m / m = min 1 (x / (m::real))"
  by (simp add: min_def divide_simps)

text \<open>
  The code takes the mean over all three tasks, a task without a recording counting as
  duration 0; no quotient is ever taken with a zero divisor.
\<close>

lemma coverage_all_tasks:
  "coverage d = Some (sum_list (map (spec_ratio d) SPEECH_TASKS) / real (length SPEECH_TASKS))"
  by (simp add: coverage_def coverage_of_def recorded_def expected_eq ratio_at_def at_index_def
      js_div_def spec_ratio_def SPEECH_TASKS_def nullish_def capped_ratio)

lemma coverage_total: "\<exists>cov. coverage d = Some cov"
  using coverage_all_tasks by blast

lemma ratio_at_total: "ratio_at ex i b \<noteq> None"
  by (simp add: ratio_at_def js_div_def split: option.splits)

lemma ratio_at_zero: "at_index ex i = Some 0 \<Longrightarrow> ratio_at ex i b = Some 0"
  by (simp add: ratio_at_def)

lemma coverage_one_task: "coverage (map_of [(js ''picture-description'', 90000)]) = Some (1 / 3)"
  by (simp add: coverage_all_tasks spec_ratio_def SPEECH_TASKS_def nullish_def js_def)

lemma spec_coverage_one_task: "spec_coverage (map_of [(js ''picture-description'', 90000)]) = 1"
  by (simp add: spec_coverage_def spec_attempted_def spec_ratio_def SPEECH_TASKS_def nullish_def
      js_def)

text \<open>
  With no recording at all the code reaches the same mean, which is 0: the branch that
  gives 0.5 tests the length of \<open>recorded\<close>, which is always 3.
\<close>

lemma coverage_no_speech: "coverage Map.empty = Some 0"
  by (simp add: coverage_all_tasks spec_ratio_def SPEECH_TASKS_def nullish_def)

lemma coverage_of_no_tasks: "coverage_of [] [] = Some 0.5"
  by (simp add: coverage_of_def)

text \<open>
  C2, as stated, fails: with one task recorded for its full duration and the other two
  not attempted, the mean over the attempted tasks is 1, and the code gives 1/3.
\<close>

theorem coverage_attempted_mean_counterexample:
  "coverage (map_of [(js ''picture-description'', 90000)])
     \<noteq> Some (spec_coverage (map_of [(js ''picture-description'', 90000)]))"
  unfolding coverage_one_task spec_coverage_one_task by simp

text \<open>
  C2, amended: each speech task's ratio is its recorded duration (0 for a task that was
  not attempted) divided by the task's maximum allowed duration and capped at 1; when at
  least one speech task was attempted, the coverage is the mean of these ratios over all
  the fixed speech tasks; and a task whose expected duration is zero contributes 0, no
  quotient being taken by zero.
\<close>

theorem coverage_mean_over_all_tasks:
  assumes "\<exists>t \<in> set SPEECH_TASKS. d (speech_id t) \<noteq> None"
  shows "coverage d
      = Some (sum_list (map (spec_ratio d) SPEECH_TASKS) / real (length SPEECH_TASKS))
    \<and> ratio_at ex i b \<noteq> None
    \<and> (at_index ex i = Some 0 \<longrightarrow> ratio_at ex i b = Some 0)"
  using coverage_all_tasks ratio_at_total ratio_at_zero by blast

theorem coverage_mean_over_all_tasks_witness:
  "(\<exists>t \<in> set SPEECH_TASKS.
      map_of [(js ''picture-description'', 90000::real)] (speech_id t) \<noteq> None)
   \<and> coverage (map_of [(js ''picture-description'', 90000)]) = Some (1 / 3)
   \<and> ratio_at [0] 0 7 = Some 0"
proof -
  have h: "\<exists>t \<in> set SPEECH_TASKS.
      map_of [(js ''picture-description'', 90000::real)] (speech_id t) \<noteq> None"
    by (simp add: SPEECH_TASKS_def)
  have z: "at_index [0::real] 0 = Some 0"
    by (simp add: at_index_def)
  from coverage_mean_over_all_tasks [OF h, of "[0]" 0 7] z
  have "ratio_at [0] 0 7 = Some 0" by blast
  with h coverage_one_task show ?thesis by blast
qed

subsection \<open>The probability\<close>

lemma clamp_eq: "min 0.98 (max 0.02 x) = spec_clamp 0.02 0.98 (x::real)"
  by (simp add: spec_clamp_def min_def max_def)

lemma heuristic_Some:
  assumes "coverage d = Some cov"
  shows "\<exists>r. heuristic aid now s d = Some r \<and> riskLevel r = riskLevel_of (probability r) \<and>
    probability r =
      min 0.98 (max 0.02 (1 - (0.7 * ((min 1 (memoryScore s / 2) + min 1 (attentionScore s / 4)
        + min 1 (languageScore s / 1) + min 1 (executiveScore s / 1)) / 4) + 0.3 * cov)))"
  unfolding heuristic_def Let_def
  by (simp only: assms option.case AssessmentResult.select_convs option.inject simp_thms ex_simps)

text \<open>
  C1: for every sub-score tuple and speech-duration map the estimator returns a result
  whose probability is 1 - (0.7 * aggregate + 0.3 * coverage) clamped to [0.02, 0.98],
  where the aggregate is the unweighted mean of the four sub-scores, each normalised as
  min(1, score / max) with the maxima 2, 4, 1 and 1, and the coverage is the value the
  code computes from the durations.
\<close>

theorem heuristic_probability_formula:
  "\<exists>cov r. coverage d = Some cov \<and> heuristic aid now s d = Some r
     \<and> probability r = spec_probability s cov"
proof -
  obtain cov where c: "coverage d = Some cov"
    using coverage_total by blast
  from heuristic_Some [OF c] obtain r where
    r: "heuristic aid now s d = Some r" and
    p: "probability r =
      min 0.98 (max 0.02 (1 - (0.7 * ((min 1 (memoryScore s / 2) + min 1 (attentionScore s / 4)
        + min 1 (languageScore s / 1) + min 1 (executiveScore s / 1)) / 4) + 0.3 * cov)))"
    by blast
  have "probability r = spec_probability s cov"
    unfolding p spec_probability_def spec_cognitive_aggregate_def spec_normalized_def clamp_eq
    by (rule refl)
  with c r show ?thesis by blast
qed

lemma spec_probability_zero: "spec_probability zero_scores 0 = 0.98"
  by (simp add: spec_probability_def spec_cognitive_aggregate_def spec_normalized_def
      spec_clamp_def zero_scores_def)

theorem heuristic_probability_formula_witness:
  "\<exists>r. heuristic [] [] zero_scores Map.empty = Some r \<and> probability r = 0.98"
proof -
  from heuristic_probability_formula [of Map.empty "[]" "[]" zero_scores]
  obtain cov r where "coverage Map.empty = Some cov"
    and r: "heuristic [] [] zero_scores Map.empty = Some r"
    and p: "probability r = spec_probability zero_scores cov"
    by blast
  then have "cov = 0"
    by (simp add: coverage_no_speech)
  with p have "probability r = 0.98"
    by (simp add: spec_probability_zero)
  with r show ?thesis by blast
qed


text \<open>
  C5: for every sub-score tuple (within the domain maxima or not) and every
  speech-duration map, the estimator returns a result and its probability lies in
  [0.02, 0.98].
\<close>

theorem heuristic_probability_range:
  "\<exists>r. heuristic aid now s d = Some r \<and> 0.02 \<le> probability r \<and> probability r \<le> 0.98"
proof -
  obtain cov where c: "coverage d = Some cov"
    using coverage_total by blast
  from heuristic_Some [OF c, of aid now s] obtain r where
    r: "heuristic aid now s d = Some r" and
    p: "probability r =
      min 0.98 (max 0.02 (1 - (0.7 * ((min 1 (memoryScore s / 2) + min 1 (attentionScore s / 4)
        + min 1 (languageScore s / 1) + min 1 (executiveScore s / 1)) / 4) + 0.3 * cov)))"
    by blast
  have "0.02 \<le> probability r" "probability r \<le> 0.98"
    unfolding p by (simp_all add: min_def max_def)
  with r show ?thesis by blast
qed

lemma heuristic_riskLevel:
  "heuristic aid now s d = Some r \<Longrightarrow> riskLevel r = riskLevel_of (probability r)"
  using heuristic_Some [of d _ aid now s] coverage_total [of d] by fastforce

text \<open>
  C6: the risk level is a function of the probability alone: High exactly above 0.66,
  Medium exactly above 0.33 and up to 0.66, Low otherwise; it does not decrease when
  the probability grows; and the level of the estimator's result is this function of
  its probability.
\<close>

theorem riskLevel_thresholds_monotone:
  "(riskLevel_of p = High \<longleftrightarrow> 0.66 < p)
   \<and> (riskLevel_of p = Medium \<longleftrightarrow> 0.33 < p \<and> p \<le> 0.66)
   \<and> (riskLevel_of p = Low \<longleftrightarrow> p \<le> 0.33)
   \<and> (p1 \<le> p2 \<longrightarrow> spec_level_rank (riskLevel_of p1) \<le> spec_level_rank (riskLevel_of p2))
   \<and> (heuristic aid now s d = Some r \<longrightarrow> riskLevel r = riskLevel_of (probability r))"
proof -
  have "p1 \<le> p2 \<longrightarrow> spec_level_rank (riskLevel_of p1) \<le> spec_level_rank (riskLevel_of p2)"
    by (simp add: riskLevel_of_def)
  moreover have "riskLevel_of p = High \<longleftrightarrow> 0.66 < p"
    by (simp add: riskLevel_of_def)
  moreover have "riskLevel_of p = Medium \<longleftrightarrow> 0.33 < p \<and> p \<le> 0.66"
    by (auto simp add: riskLevel_of_def)
  moreover have "riskLevel_of p = Low \<longleftrightarrow> p \<le> 0.33"
    by (auto simp add: riskLevel_of_def)
  ultimately show ?thesis
    using heuristic_riskLevel by blast
qed

lemma heuristic_zero:
  "map_option probability (heuristic aid now zero_scores Map.empty) = Some 0.98"
  by (simp add: heuristic_def Let_def coverage_no_speech zero_scores_def)

lemma heuristic_zero_level:
  "map_option riskLevel (heuristic aid now zero_scores Map.empty) = Some High"
  by (simp add: heuristic_def Let_def coverage_no_speech zero_scores_def riskLevel_of_def)

lemma coverage_full:
  "coverage (map_of [(js ''picture-description'', 90000), (js ''story-recall'', 120000),
      (js ''free-conversation'', 95000)]) = Some 1"
  by (simp add: coverage_all_tasks spec_ratio_def SPEECH_TASKS_def nullish_def js_def)

lemma heuristic_max:
  "map_option probability (heuristic aid now max_scores
     (map_of [(js ''picture-description'', 90000), (js ''story-recall'', 120000),
      (js ''free-conversation'', 95000)])) = Some 0.02"
  unfolding heuristic_def coverage_full by (simp add: Let_def max_scores_def)

theorem riskLevel_thresholds_monotone_witness:
  "riskLevel_of 0.5 = Medium \<and> (0.2::real) \<le> 0.7
   \<and> spec_level_rank (riskLevel_of 0.2) \<le> spec_level_rank (riskLevel_of 0.7)
   \<and> (\<exists>r. heuristic [] [] zero_scores (map_of []) = Some r
        \<and> riskLevel r = riskLevel_of (probability r))"
proof -
  obtain r where r: "heuristic [] [] zero_scores (map_of []) = Some r"
    using heuristic_probability_range by blast
  from riskLevel_thresholds_monotone [of "0.5" "0.2" "0.7" "[]" "[]" zero_scores "map_of []" r] r
  show ?thesis by simp
qed

theorem heuristic_probability_range_witness:
  "\<exists>r. heuristic [] [] zero_scores (map_of []) = Some r \<and> 0.02 \<le> probability r \<and> probability r \<le> 0.98"
  using heuristic_probability_range [of "[]" "[]" zero_scores "map_of []"] by simp


section \<open>Properties of the chat fallback matcher\<close>

subsection \<open>The matcher decides the language of the pattern\<close>

lemma lang_seq: "lang (seq r s) = lang (Seq r s)"
  by (cases "(r, s)" rule: seq.cases) auto

lemma lang_either: "lang (either r s) = lang r \<union> lang s"
  by (cases "(r, s)" rule: either.cases) auto

lemma nullable_iff: "nullable r \<longleftrightarrow> [] \<in> lang r"
  by (induction r) (auto intro: repeated.none)

lemma repeated_cons:
  "c # w \<in> repeated A \<longleftrightarrow> (\<exists>u v. w = u @ v \<and> c # u \<in> A \<and> v \<in> repeated A)"
proof
  assume "c # w \<in> repeated A"
  then show "\<exists>u v. w = u @ v \<and> c # u \<in> A \<and> v \<in> repeated A"
  proof (induction "c # w" arbitrary: w rule: repeated.induct)
    case (more u v)
    show ?case
    proof (cases u)
      case Nil
      with more show ?thesis by simp
    next
      case (Cons d u')
      with more.hyps show ?thesis by auto
    qed
  qed
next
  assume "\<exists>u v. w = u @ v \<and> c # u \<in> A \<and> v \<in> repeated A"
  then obtain u v where "w = u @ v" "c # u \<in> A" "v \<in> repeated A"
    by blast
  then show "c # w \<in> repeated A"
    using repeated.more [of "c # u" A v] by simp
qed

lemma lang_deriv: "w \<in> lang (deriv c r) \<longleftrightarrow> c # w \<in> lang r"
proof (induction r arbitrary: w)
  case (Seq r s)
  have "c # w \<in> lang (Seq r s) \<longleftrightarrow>
      (\<exists>u v. w = u @ v \<and> c # u \<in> lang r \<and> v \<in> lang s) \<or> ([] \<in> lang r \<and> c # w \<in> lang s)"
    by (auto simp add: Cons_eq_append_conv)
  with Seq show ?case
    by (auto simp add: lang_seq lang_either nullable_iff)
next
  case (Many r)
  then show ?case
    by (simp add: lang_seq repeated_cons)
qed (auto simp add: lang_either)

lemma matches_here_iff: "matches_here r s \<longleftrightarrow> (\<exists>u v. s = u @ v \<and> u \<in> lang r)"
proof (induction s arbitrary: r)
  case Nil
  then show ?case by (simp add: nullable_iff)
next
  case (Cons c cs)
  have "(\<exists>u v. c # cs = u @ v \<and> u \<in> lang r) \<longleftrightarrow>
      [] \<in> lang r \<or> (\<exists>u v. cs = u @ v \<and> c # u \<in> lang r)"
    by (auto simp add: Cons_eq_append_conv)
  with Cons show ?case
    by (simp add: nullable_iff lang_deriv)
qed

lemma regex_test_iff: "regex_test r s \<longleftrightarrow> (\<exists>p u v. s = p @ u @ v \<and> u \<in> lang r)"
proof (induction s)
  case Nil
  then show ?case by (simp add: nullable_iff)
next
  case (Cons c cs)
  have "(\<exists>p u v. c # cs = p @ u @ v \<and> u \<in> lang r) \<longleftrightarrow>
      (\<exists>u v. c # cs = u @ v \<and> u \<in> lang r) \<or> (\<exists>p u v. cs = p @ u @ v \<and> u \<in> lang r)"
    (is "?lhs \<longleftrightarrow> ?here \<or> ?later")
  proof
    assume ?lhs
    then obtain p u v where e: "c # cs = p @ u @ v" and u: "u \<in> lang r"
      by blast
    show "?here \<or> ?later"
    proof (cases p)
      case Nil
      with e u show ?thesis by auto
    next
      case (Cons d p')
      with e u have "cs = p' @ u @ v" by simp
      with u show ?thesis by blast
    qed
  next
    assume "?here \<or> ?later"
    then show ?lhs
    proof
      assume ?here
      then obtain u v where "c # cs = [] @ u @ v" "u \<in> lang r" by auto
      then show ?lhs by blast
    next
      assume ?later
      then obtain p u v where "cs = p @ u @ v" "u \<in> lang r" by blast
      then have "c # cs = (c # p) @ u @ v" "u \<in> lang r" by simp_all
      then show ?lhs by blast
    qed
  qed
  then have split: "?lhs \<longleftrightarrow> ?here \<or> ?later" .
  have step: "regex_test r (c # cs) \<longleftrightarrow> matches_here r (c # cs) \<or> regex_test r cs"
    by (simp del: matches_here.simps)
  have here: "matches_here r (c # cs) \<longleftrightarrow> ?here"
    by (rule matches_here_iff)
  have later: "regex_test r cs \<longleftrightarrow> ?later"
    by (rule Cons.IH)
  show ?case
    by (simp only: step here later split)
qed


subsection \<open>fallbackAnswer\<close>

lemma fallback_loop_find:
  "fallback_loop items query =
     (case find (\<lambda>item. regex_test (kb_q item) query) items of
        None \<Rightarrow> generic_answer
      | Some item \<Rightarrow> kb_a item @ disclaimer)"
  by (induction items) (simp_all add: generic_answer_def disclaimer_def)

lemma query_dementia_risk:
  "js ''What causes dementia risk'' =
     [87, 104, 97, 116, 32, 99, 97, 117, 115, 101, 115, 32, 100, 101, 109, 101, 110, 116, 105,
      97, 32, 114, 105, 115, 107]"
  by (simp add: js_def)

lemma query_risk:
  "js ''What causes risk'' =
     [87, 104, 97, 116, 32, 99, 97, 117, 115, 101, 115, 32, 114, 105, 115, 107]"
  by (simp add: js_def)

lemma query_hello: "js ''hello'' = [104, 101, 108, 108, 111]"
  by (simp add: js_def)

lemma KB_first: "\<exists>rest. KB = \<lparr>kb_q = Seq (optional (Seq (lit ''what'') (Seq (one_or_more Space)
            (Seq (lit ''is'') (one_or_more Space))))) (lit ''dementia''), kb_a = dementia_answer\<rparr> # rest"
  by (simp add: KB_def dementia_answer_def)

lemma dementia_pattern_matches:
  "regex_test (Seq (optional (Seq (lit ''what'') (Seq (one_or_more Space)
            (Seq (lit ''is'') (one_or_more Space))))) (lit ''dementia'')) (js ''What causes dementia risk'')"
  by (simp add: query_dementia_risk optional_def one_or_more_def canonicalize_def is_space_def)

lemma fallbackAnswer_dementia_risk:
  "fallbackAnswer (js ''What causes dementia risk'') = dementia_answer @ disclaimer"
proof -
  obtain rest where k: "KB = \<lparr>kb_q = Seq (optional (Seq (lit ''what'') (Seq (one_or_more Space)
            (Seq (lit ''is'') (one_or_more Space))))) (lit ''dementia''), kb_a = dementia_answer\<rparr> # rest"
    using KB_first by blast
  show ?thesis
    unfolding fallbackAnswer_def k
    by (simp only: fallback_loop.simps KB_item.select_convs dementia_pattern_matches if_True disclaimer_def)
qed

lemma answers_differ: "dementia_answer @ disclaimer \<noteq> risk_cause_answer @ disclaimer"
  by (simp add: dementia_answer_def risk_cause_answer_def js_def)

lemma fallbackAnswer_hello: "fallbackAnswer (js ''hello'') = generic_answer"
  by (simp add: fallbackAnswer_def KB_def query_hello canonicalize_def is_space_def
      optional_def one_or_more_def generic_answer_def)

lemma find_risk:
  "find (\<lambda>item. regex_test (kb_q item) (js ''What causes risk'')) KB =
     Some \<lparr>kb_q = one_of [lit ''risk'', lit ''cause''], kb_a = risk_cause_answer\<rparr>"
  by (simp add: KB_def query_risk canonicalize_def is_space_def
      optional_def one_or_more_def risk_cause_answer_def)

lemma lang_lit: "w \<in> lang (lit s) \<longleftrightarrow> map canonicalize w = map canonicalize (js s)"
proof (induction s arbitrary: w rule: lit.induct)
  case 1
  then show ?case by (simp add: js_def)
next
  case (2 c)
  then show ?case by (auto simp add: js_def)
next
  case (3 c d cs)
  have "w \<in> lang (lit (c # d # cs)) \<longleftrightarrow>
      (\<exists>x v. w = x # v \<and> canonicalize x = canonicalize (of_char c) \<and> v \<in> lang (lit (d # cs)))"
  proof
    assume "w \<in> lang (lit (c # d # cs))"
    then show "\<exists>x v. w = x # v \<and> canonicalize x = canonicalize (of_char c)
        \<and> v \<in> lang (lit (d # cs))"
      by auto
  next
    assume "\<exists>x v. w = x # v \<and> canonicalize x = canonicalize (of_char c)
        \<and> v \<in> lang (lit (d # cs))"
    then obtain x v where "w = [x] @ v" "canonicalize x = canonicalize (of_char c)"
      "v \<in> lang (lit (d # cs))"
      by auto
    then show "w \<in> lang (lit (c # d # cs))"
      unfolding lit.simps lang.simps by blast
  qed
  also have "\<dots> \<longleftrightarrow>
      (\<exists>x v. w = x # v \<and> canonicalize x = canonicalize (of_char c)
         \<and> map canonicalize v = map canonicalize (js (d # cs)))"
    using "3.IH" by simp
  also have "\<dots> \<longleftrightarrow> map canonicalize w = map canonicalize (js (c # d # cs))"
    by (cases w) (auto simp add: js_def)
  finally show ?case .
qed

text \<open>
  The first pattern of \<open>KB\<close> matches exactly the queries that hold the word "dementia"
  in either case of each letter: its prefix "what is" is optional.
\<close>

lemma dementia_pattern_iff:
  "regex_test (kb_q (hd KB)) query \<longleftrightarrow>
     (\<exists>p u v. query = p @ u @ v \<and> map canonicalize u = map canonicalize (js ''dementia''))"
proof -
  define pre where "pre = Seq (lit ''what'') (Seq (one_or_more Space)
            (Seq (lit ''is'') (one_or_more Space)))"
  define dem where "dem = lit ''dementia''"
  have k: "kb_q (hd KB) = Seq (optional pre) dem"
    by (simp add: KB_def pre_def dem_def)
  have d: "\<And>u. u \<in> lang dem \<longleftrightarrow> map canonicalize u = map canonicalize (js ''dementia'')"
    unfolding dem_def by (rule lang_lit)
  have s: "\<And>w. w \<in> lang (Seq (optional pre) dem)
      \<longleftrightarrow> (\<exists>x y. w = x @ y \<and> x \<in> lang (optional pre) \<and> y \<in> lang dem)"
    by simp
  have e: "[] \<in> lang (optional pre)"
    by (simp add: optional_def)
  show ?thesis
  proof
    assume "regex_test (kb_q (hd KB)) query"
    then obtain p u v where q: "query = p @ u @ v" and u: "u \<in> lang (Seq (optional pre) dem)"
      unfolding k regex_test_iff by blast
    from u obtain x y where "u = x @ y" and y: "y \<in> lang dem"
      unfolding s by blast
    with q have "query = (p @ x) @ y @ v"
      by simp
    with y show "\<exists>p u v. query = p @ u @ v \<and> map canonicalize u = map canonicalize (js ''dementia'')"
      unfolding d by blast
  next
    assume "\<exists>p u v. query = p @ u @ v \<and> map canonicalize u = map canonicalize (js ''dementia'')"
    then obtain p u v where q: "query = p @ u @ v" and "u \<in> lang dem"
      unfolding d by blast
    with e have "u \<in> lang (Seq (optional pre) dem)"
      unfolding s by (metis append_Nil)
    with q show "regex_test (kb_q (hd KB)) query"
      unfolding k regex_test_iff by blast
  qed
qed

lemma fallbackAnswer_mentions_dementia:
  assumes "query = p @ u @ v" and "map canonicalize u = map canonicalize (js ''dementia'')"
  shows "fallbackAnswer query = dementia_answer @ disclaimer"
proof -
  from assms have m: "regex_test (kb_q (hd KB)) query"
    unfolding dementia_pattern_iff by blast
  obtain rest where k: "KB = \<lparr>kb_q = Seq (optional (Seq (lit ''what'') (Seq (one_or_more Space)
            (Seq (lit ''is'') (one_or_more Space))))) (lit ''dementia''), kb_a = dementia_answer\<rparr> # rest"
    using KB_first by blast
  from m show ?thesis
    unfolding fallbackAnswer_def k
    by (simp add: disclaimer_def)
qed


text \<open>
  C3, as stated, fails at its own example: the query "What causes dementia risk" does
  not get the risk/cause answer, because the first pattern of the list, whose prefix
  "what is" is optional, already matches the word "dementia" in it.
\<close>

theorem fallbackAnswer_dementia_risk_counterexample:
  "fallbackAnswer (js ''What causes dementia risk'') \<noteq> risk_cause_answer @ disclaimer"
  unfolding fallbackAnswer_dementia_risk by (rule answers_differ)

text \<open>
  C3, amended: the matcher returns the canned answer of the first pattern of its ordered
  list that matches the query (case-insensitive), with the fixed disclaimer appended,
  and the generic disclaimer-and-menu response when no pattern matches; in particular
  the query "What causes dementia risk" returns the canned answer of the first pattern,
  the definition of dementia, with the disclaimer, and the query "hello" returns the
  generic response.
\<close>

theorem fallbackAnswer_first_match:
  "fallbackAnswer query =
     (case find (\<lambda>item. regex_test (kb_q item) query) KB of
        None \<Rightarrow> generic_answer
      | Some item \<Rightarrow> kb_a item @ disclaimer)
   \<and> fallbackAnswer (js ''What causes dementia risk'') = dementia_answer @ disclaimer
   \<and> fallbackAnswer (js ''hello'') = generic_answer"
  using fallback_loop_find [of KB query] fallbackAnswer_dementia_risk fallbackAnswer_hello
  by (simp add: fallbackAnswer_def)

theorem fallbackAnswer_first_match_witness:
  "fallbackAnswer (js ''What causes risk'') = risk_cause_answer @ disclaimer"
  using fallbackAnswer_first_match [of "js ''What causes risk''"] find_risk
  by simp


section \<open>Properties of the chat widget\<close>

lemma callDeepSeek_sent: "length (snd (callDeepSeek env msgs0 query)) \<le> 1"
  by (simp add: callDeepSeek_def Let_def split: sum.splits)

text \<open>
  C10: a send with an empty trimmed input, or while a reply is loading, changes nothing
  and sends no request; any other send appends exactly the user's trimmed message and
  then one bot message to the transcript, and sends at most one request.
\<close>

theorem handleSend_guard_and_append:
  "(trim (input st) = [] \<or> loading st \<longrightarrow> handleSend env st = (st, []))
   \<and> (trim (input st) \<noteq> [] \<and> \<not> loading st \<longrightarrow>
        (\<exists>answer. messages (fst (handleSend env st)) =
           messages st @ [\<lparr>role = User, msg_text = trim (input st)\<rparr>,
                          \<lparr>role = Bot, msg_text = answer\<rparr>])
        \<and> length (snd (handleSend env st)) \<le> 1
        \<and> input (fst (handleSend env st)) = []
        \<and> \<not> loading (fst (handleSend env st)))"
proof -
  have "trim (input st) = [] \<or> loading st \<longrightarrow> handleSend env st = (st, [])"
    by (auto simp add: handleSend_def Let_def)
  moreover have "trim (input st) \<noteq> [] \<and> \<not> loading st \<longrightarrow>
        (\<exists>answer. messages (fst (handleSend env st)) =
           messages st @ [\<lparr>role = User, msg_text = trim (input st)\<rparr>,
                          \<lparr>role = Bot, msg_text = answer\<rparr>])
        \<and> length (snd (handleSend env st)) \<le> 1
        \<and> input (fst (handleSend env st)) = []
        \<and> \<not> loading (fst (handleSend env st))"
    using callDeepSeek_sent [of env "messages st" "trim (input st)"]
    by (auto simp add: handleSend_def Let_def split: prod.splits)
  ultimately show ?thesis by blast
qed

lemma trim_blank: "trim (input chat_blank) = []"
  by (simp add: chat_blank_def trim_def js_def is_space_def)

lemma trim_hello: "trim (input chat_hello) = js ''hello''"
  by (simp add: chat_hello_def trim_def js_def is_space_def)

theorem handleSend_guard_and_append_witness:
  "trim (input chat_blank) = [] \<and> handleSend chat_offline chat_blank = (chat_blank, [])
   \<and> trim (input chat_hello) \<noteq> [] \<and> \<not> loading chat_hello
   \<and> (\<exists>answer. messages (fst (handleSend chat_offline chat_hello)) =
           messages chat_hello @ [\<lparr>role = User, msg_text = trim (input chat_hello)\<rparr>,
                          \<lparr>role = Bot, msg_text = answer\<rparr>])"
proof -
  have a: "trim (input chat_blank) = []" by (rule trim_blank)
  have b: "trim (input chat_hello) \<noteq> []" by (simp add: trim_hello js_def)
  have c: "\<not> loading chat_hello" by (simp add: chat_hello_def)
  from handleSend_guard_and_append [of chat_blank chat_offline] a
  have d: "handleSend chat_offline chat_blank = (chat_blank, [])" by blast
  from handleSend_guard_and_append [of chat_hello chat_offline] b c
  have e: "\<exists>answer. messages (fst (handleSend chat_offline chat_hello)) =
           messages chat_hello @ [\<lparr>role = User, msg_text = trim (input chat_hello)\<rparr>,
                          \<lparr>role = Bot, msg_text = answer\<rparr>]" by blast
  from a b c d e show ?thesis by blast
qed

lemma handleSend_hello:
  "messages (fst (handleSend chat_offline chat_hello)) =
     initial_messages @ [\<lparr>role = User, msg_text = js ''hello''\<rparr>,
                          \<lparr>role = Bot, msg_text = generic_answer\<rparr>]"
proof -
  have i: "input chat_hello = js '' hello ''" "loading chat_hello = False"
    "messages chat_hello = initial_messages"
    by (simp_all add: chat_hello_def)
  have t: "trim (js '' hello '') = js ''hello''"
    using trim_hello by (simp add: i)
  have n: "js ''hello'' \<noteq> []"
    by (simp add: js_def)
  show ?thesis
    by (simp add: handleSend_def Let_def i t n callDeepSeek_def chat_offline_def
        fallbackAnswer_hello)
qed


section \<open>Properties of the remote scoring path\<close>

lemma failed_attempts_step:
  "i < k \<Longrightarrow> failed_attempts i k = FetchAssessmentResult i # Sleep 1000 # failed_attempts (Suc i) k"
  by (simp add: failed_attempts_def upt_conv_Cons)

lemma failed_attempts_none: "k \<le> i \<Longrightarrow> failed_attempts i k = []"
  by (simp add: failed_attempts_def)

lemma poll_all_fail:
  "(\<forall>j. i \<le> j \<and> j < 15 \<longrightarrow> isl (fetch j)) \<Longrightarrow> poll fetch i = (None, failed_attempts i 15)"
proof (induction fetch i rule: poll.induct)
  case (1 fetch i)
  show ?case
  proof (cases "i < 15")
    case False
    then show ?thesis
      by (simp add: poll.simps [of fetch i] failed_attempts_none)
  next
    case True
    with "1.prems" obtain e where e: "fetch i = Inl e"
      by (cases "fetch i") auto
    from "1.prems" have "\<forall>j. Suc i \<le> j \<and> j < 15 \<longrightarrow> isl (fetch j)"
      by simp
    with "1.IH" [OF True e] have "poll fetch (Suc i) = (None, failed_attempts (Suc i) 15)"
      by simp
    with True e show ?thesis
      by (simp add: poll.simps [of fetch i] failed_attempts_step)
  qed
qed

lemma poll_first_success:
  "i \<le> k \<Longrightarrow> k < 15 \<Longrightarrow> fetch k = Inr r \<Longrightarrow> (\<forall>j. i \<le> j \<and> j < k \<longrightarrow> isl (fetch j))
     \<Longrightarrow> poll fetch i = (Some r, failed_attempts i k @ [FetchAssessmentResult k])"
proof (induction fetch i rule: poll.induct)
  case (1 fetch i)
  show ?case
  proof (cases "i = k")
    case True
    with "1.prems" show ?thesis
      by (simp add: poll.simps [of fetch k] failed_attempts_none)
  next
    case False
    with "1.prems" have lt: "i < k" "i < 15" by simp_all
    with "1.prems" obtain e where e: "fetch i = Inl e"
      by (cases "fetch i") auto
    from "1.prems" lt have "\<forall>j. Suc i \<le> j \<and> j < k \<longrightarrow> isl (fetch j)" "Suc i \<le> k"
      by simp_all
    with "1.IH" [OF lt(2) e] "1.prems"
    have "poll fetch (Suc i) = (Some r, failed_attempts (Suc i) k @ [FetchAssessmentResult k])"
      by simp
    with lt e show ?thesis
      by (simp add: poll.simps [of fetch i] failed_attempts_step)
  qed
qed

lemma poll_fetch_count: "length (filter is_fetch (snd (poll fetch i))) \<le> 15 - i"
proof (induction fetch i rule: poll.induct)
  case (1 fetch i)
  show ?case
  proof (cases "i < 15")
    case False
    then show ?thesis by (simp add: poll.simps [of fetch i])
  next
    case True
    show ?thesis
    proof (cases "fetch i")
      case (Inr r)
      with True show ?thesis by (simp add: poll.simps [of fetch i])
    next
      case (Inl e)
      from "1.IH" [OF True Inl] have "length (filter is_fetch (snd (poll fetch (Suc i)))) \<le> 15 - Suc i" .
      with True Inl show ?thesis
        by (auto simp add: poll.simps [of fetch i] split: prod.splits)
    qed
  qed
qed

lemma persist_result_events:
  "\<exists>target st'. persist_result env auth r st = ([Save target], st') \<and> result st' = result st
     \<and> isLoading st' = isLoading st \<and> isResultPending st' = isResultPending st"
  by (simp add: persist_result_def Let_def split: sum.splits)

lemma remote_path_fetch_count:
  "length (filter is_fetch (fst (remote_path env auth st))) \<le> 15"
proof -
  obtain fetched evs where p: "poll (fetchAssessmentResult env) 0 = (fetched, evs)"
    by (cases "poll (fetchAssessmentResult env) 0")
  from poll_fetch_count [of "fetchAssessmentResult env" 0] p
  have c: "length (filter is_fetch evs) \<le> 15" by simp
  show ?thesis
  proof (cases fetched)
    case None
    with p c show ?thesis
      by (simp add: remote_path_def pending_toast_def)
  next
    case (Some r)
    obtain target st' where "persist_result env auth r (st\<lparr>result := Some r\<rparr>) = ([Save target], st')"
      using persist_result_events by blast
    with Some p c show ?thesis
      by (simp add: remote_path_def)
  qed
qed

lemma remote_path_all_fail:
  assumes "\<forall>j<15. isl (fetchAssessmentResult env j)"
  shows "remote_path env auth st =
    (RequestRiskPrediction # failed_attempts 0 15 @ [pending_toast], st\<lparr>isResultPending := False\<rparr>)"
proof -
  from assms have "poll (fetchAssessmentResult env) 0 = (None, failed_attempts 0 15)"
    by (intro poll_all_fail) simp
  then show ?thesis
    by (simp add: remote_path_def)
qed

lemma remote_path_first_success:
  assumes "k < 15" "fetchAssessmentResult env k = Inr r" "\<forall>j<k. isl (fetchAssessmentResult env j)"
  shows "\<exists>target st'. remote_path env auth st =
    (RequestRiskPrediction # failed_attempts 0 k @ [FetchAssessmentResult k, Save target], st')
     \<and> result st' = Some r \<and> \<not> isResultPending st' \<and> isLoading st' = isLoading st"
proof -
  from assms have p: "poll (fetchAssessmentResult env) 0 =
      (Some r, failed_attempts 0 k @ [FetchAssessmentResult k])"
    by (intro poll_first_success) simp_all
  obtain target st' where s: "persist_result env auth r (st\<lparr>result := Some r\<rparr>) = ([Save target], st')"
    and t: "result st' = Some r" "isLoading st' = isLoading st"
    using persist_result_events [of env auth r "st\<lparr>result := Some r\<rparr>"] by auto
  show ?thesis
    using p s t by (simp add: remote_path_def)
qed


text \<open>
  C7: with the local heuristic disabled and a started assessment, the handler completes
  and fetches the result at most 15 times. When every one of the 15 fetches fails, each
  is followed by a sleep of one second, no further fetch is made, the "pending" toast is
  shown and the handler ends normally with no result set. When the first successful
  fetch is the one numbered \<open>k\<close>, the \<open>k\<close> failed fetches before it are each followed by
  a sleep of one second, no fetch follows it, and its result is set.
\<close>

theorem remote_polling_bounded:
  assumes "nullish (session_assessmentId sess) [] \<noteq> []" and "session_user sess \<noteq> None"
  shows "\<exists>evs st'. handleCognitiveComplete_with False env sess now payload st = Some (evs, st')
    \<and> length (filter is_fetch evs) \<le> 15
    \<and> ((\<forall>j<15. isl (fetchAssessmentResult env j)) \<longrightarrow>
         evs = [SubmitCognitiveData, RequestRiskPrediction] @ failed_attempts 0 15 @ [pending_toast]
         \<and> result st' = result st \<and> \<not> isResultPending st' \<and> \<not> isLoading st')
    \<and> (\<forall>k r. k < 15 \<and> fetchAssessmentResult env k = Inr r
           \<and> (\<forall>j<k. isl (fetchAssessmentResult env j)) \<longrightarrow>
         (\<exists>target. evs = [SubmitCognitiveData, RequestRiskPrediction] @ failed_attempts 0 k
            @ [FetchAssessmentResult k, Save target])
         \<and> result st' = Some r \<and> \<not> isResultPending st' \<and> \<not> isLoading st')"
proof -
  define st1 where "st1 = st\<lparr>isLoading := True,
      activeStepIndex := min (activeStepIndex st + 1) 3, isResultPending := True\<rparr>"
  obtain evs0 st2 where rp: "remote_path env (session_auth sess) st1 = (evs0, st2)"
    by (cases "remote_path env (session_auth sess) st1")
  have run: "handleCognitiveComplete_with False env sess now payload st
      = Some (SubmitCognitiveData # evs0, st2\<lparr>isLoading := False\<rparr>)"
    using assms rp by (simp add: handleCognitiveComplete_with_def Let_def st1_def)
  have count: "length (filter is_fetch (SubmitCognitiveData # evs0)) \<le> 15"
    using remote_path_fetch_count [of env "session_auth sess" st1] rp by simp
  have fail: "(\<forall>j<15. isl (fetchAssessmentResult env j)) \<longrightarrow>
         SubmitCognitiveData # evs0
           = [SubmitCognitiveData, RequestRiskPrediction] @ failed_attempts 0 15 @ [pending_toast]
         \<and> result (st2\<lparr>isLoading := False\<rparr>) = result st
         \<and> \<not> isResultPending (st2\<lparr>isLoading := False\<rparr>) \<and> \<not> isLoading (st2\<lparr>isLoading := False\<rparr>)"
    using remote_path_all_fail [of env "session_auth sess" st1] rp
    by (auto simp add: st1_def)
  have ok: "\<forall>k r. k < 15 \<and> fetchAssessmentResult env k = Inr r
           \<and> (\<forall>j<k. isl (fetchAssessmentResult env j)) \<longrightarrow>
         (\<exists>target. SubmitCognitiveData # evs0
            = [SubmitCognitiveData, RequestRiskPrediction] @ failed_attempts 0 k
            @ [FetchAssessmentResult k, Save target])
         \<and> result (st2\<lparr>isLoading := False\<rparr>) = Some r
         \<and> \<not> isResultPending (st2\<lparr>isLoading := False\<rparr>) \<and> \<not> isLoading (st2\<lparr>isLoading := False\<rparr>)"
  proof (intro allI impI)
    fix k r
    assume h: "k < 15 \<and> fetchAssessmentResult env k = Inr r
           \<and> (\<forall>j<k. isl (fetchAssessmentResult env j))"
    then obtain target st' where "remote_path env (session_auth sess) st1 =
        (RequestRiskPrediction # failed_attempts 0 k @ [FetchAssessmentResult k, Save target], st')"
      and "result st' = Some r" "\<not> isResultPending st'"
      using remote_path_first_success [of k env r "session_auth sess" st1] by blast
    with rp show "(\<exists>target. SubmitCognitiveData # evs0
            = [SubmitCognitiveData, RequestRiskPrediction] @ failed_attempts 0 k
            @ [FetchAssessmentResult k, Save target])
         \<and> result (st2\<lparr>isLoading := False\<rparr>) = Some r
         \<and> \<not> isResultPending (st2\<lparr>isLoading := False\<rparr>) \<and> \<not> isLoading (st2\<lparr>isLoading := False\<rparr>)"
      by auto
  qed
  from run count fail ok show ?thesis by blast
qed

text \<open>In this build the constant is true, and the handler takes the local branch.\<close>

lemma handleCognitiveComplete_local:
  "handleCognitiveComplete env sess now payload st
     = handleCognitiveComplete_with True env sess now payload st"
  by (simp add: handleCognitiveComplete_def USE_LOCAL_HEURISTIC_def)

lemma services_down_fails: "\<forall>j<15. isl (fetchAssessmentResult services_down j)"
  by (simp add: services_down_def)

lemma sample_session_started:
  "nullish (session_assessmentId sample_session) [] \<noteq> []" "session_user sample_session \<noteq> None"
  by (simp_all add: sample_session_def nullish_def js_def)

theorem remote_polling_bounded_witness:
  "nullish (session_assessmentId sample_session) [] \<noteq> [] \<and> session_user sample_session \<noteq> None
   \<and> list_all (\<lambda>j. isl (fetchAssessmentResult services_down j)) [0..<15]
   \<and> (\<exists>st'. handleCognitiveComplete_with False services_down sample_session [] sample_payload
          sample_view
        = Some ([SubmitCognitiveData, RequestRiskPrediction] @ failed_attempts 0 15
            @ [pending_toast], st')
        \<and> result st' = None \<and> \<not> isResultPending st' \<and> \<not> isLoading st')"
proof -
  have r: "result sample_view = None"
    by (simp add: sample_view_def)
  from remote_polling_bounded [OF sample_session_started, of services_down "[]" sample_payload
      sample_view] services_down_fails r
  have "\<exists>st'. handleCognitiveComplete_with False services_down sample_session [] sample_payload
          sample_view
        = Some ([SubmitCognitiveData, RequestRiskPrediction] @ failed_attempts 0 15
            @ [pending_toast], st')
        \<and> result st' = None \<and> \<not> isResultPending st' \<and> \<not> isLoading st'"
    by auto
  moreover have "list_all (\<lambda>j. isl (fetchAssessmentResult services_down j)) [0..<15]"
    by (simp add: services_down_def list_all_iff)
  ultimately show ?thesis
    using sample_session_started by blast
qed

lemma ready_on_third_run:
  "map_option fst (handleCognitiveComplete_with False ready_on_third sample_session [] sample_payload
      sample_view)
   = Some [SubmitCognitiveData, RequestRiskPrediction, FetchAssessmentResult 0, Sleep 1000,
       FetchAssessmentResult 1, Sleep 1000, FetchAssessmentResult 2, Save BrowserStore]"
  by (simp add: handleCognitiveComplete_with_def remote_path_def poll.simps persist_result_def
      ready_on_third_def sample_session_def nullish_def js_def Let_def)


section \<open>Properties of the task generator\<close>

subsection \<open>shuffle gives exactly the rearrangements\<close>

lemma mset_remove_nth:
  "i < length xs \<Longrightarrow> add_mset (xs ! i) (mset (take i xs) + mset (drop (Suc i) xs)) = mset xs"
proof -
  assume "i < length xs"
  then have "xs = take i xs @ xs ! i # drop (Suc i) xs"
    by (rule id_take_nth_drop)
  then have "mset xs = mset (take i xs @ xs ! i # drop (Suc i) xs)"
    by simp
  then show ?thesis by simp
qed

lemma pick_all_perm:
  "length xs \<le> n \<Longrightarrow> mset (fst (pick_all n xs g)) = mset xs"
proof (induction n arbitrary: xs g)
  case 0
  then show ?case by simp
next
  case (Suc n)
  show ?case
  proof (cases "xs = []")
    case True
    then show ?thesis by simp
  next
    case False
    define i where "i = fst (next_draw g) mod length xs"
    from False have i: "i < length xs"
      by (simp add: i_def)
    define rest where "rest = take i xs @ drop (Suc i) xs"
    from i Suc.prems have "length rest \<le> n"
      by (simp add: rest_def)
    then have "mset (fst (pick_all n rest (snd (next_draw g)))) = mset rest"
      by (rule Suc.IH)
    with False i show ?thesis
      by (simp add: Let_def split_beta i_def [symmetric] rest_def [symmetric])
        (simp add: rest_def mset_remove_nth)
  qed
qed

lemma shuffle_perm: "mset (fst (shuffle xs g)) = mset xs"
  by (simp add: shuffle_def pick_all_perm)

lemma shuffle_set: "set (fst (shuffle xs g)) = set xs"
  using shuffle_perm [of xs g] by (metis set_mset_mset)

lemma shuffle_length: "length (fst (shuffle xs g)) = length xs"
  using shuffle_perm [of xs g] by (metis size_mset)

lemma pick_all_reaches:
  "mset ys = mset xs \<Longrightarrow> length xs \<le> n \<Longrightarrow> \<exists>g. fst (pick_all n xs g) = ys"
proof (induction ys arbitrary: xs n)
  case Nil
  then have "xs = []" by simp
  then show ?case by (cases n) simp_all
next
  case (Cons y ys)
  from Cons.prems have "y \<in> set xs"
    by (metis list.set_intros(1) set_mset_mset)
  then obtain i where i: "i < length xs" "xs ! i = y"
    by (auto simp add: in_set_conv_nth)
  define rest where "rest = take i xs @ drop (Suc i) xs"
  from i have "add_mset y (mset rest) = mset xs"
    using mset_remove_nth [of i xs] by (simp add: rest_def)
  with Cons.prems have "add_mset y (mset ys) = add_mset y (mset rest)"
    by simp
  then have m: "mset ys = mset rest"
    by simp
  from i Cons.prems obtain n' where n: "n = Suc n'"
    by (cases n) auto
  with i Cons.prems have "length rest \<le> n'"
    by (simp add: rest_def)
  with m obtain g where g: "fst (pick_all n' rest g) = ys"
    using Cons.IH by blast
  from i have ne: "xs \<noteq> []" by auto
  have "fst (pick_all n xs (i # g)) = y # ys"
    using i g ne by (simp add: n next_draw_def Let_def split_beta rest_def)
  then show ?case by blast
qed

lemma shuffle_reaches: "mset ys = mset xs \<Longrightarrow> \<exists>g. fst (shuffle xs g) = ys"
  by (simp add: shuffle_def pick_all_reaches)


subsection \<open>The task builders\<close>

lemma indexOf_absent: "x \<notin> set xs \<Longrightarrow> indexOf xs x = - 1"
  by (induction xs) (auto simp add: Let_def)

lemma indexOf_found:
  "x \<in> set xs \<Longrightarrow> 0 \<le> indexOf xs x \<and> indexOf xs x < int (length xs) \<and> xs ! nat (indexOf xs x) = x"
proof (induction xs)
  case Nil
  then show ?case by simp
next
  case (Cons y ys)
  show ?case
  proof (cases "y = x")
    case True
    then show ?thesis by simp
  next
    case False
    with Cons.prems have "x \<in> set ys" by simp
    then have ih: "0 \<le> indexOf ys x" "indexOf ys x < int (length ys)" "ys ! nat (indexOf ys x) = x"
      using Cons.IH by simp_all
    then have "indexOf ys x \<noteq> - 1" by simp
    with False ih show ?thesis
      by (simp add: Let_def nat_add_distrib)
  qed
qed

lemma at_int_indexOf: "x \<in> set xs \<Longrightarrow> at_int xs (indexOf xs x) = Some x"
  using indexOf_found [of x xs] by (simp add: at_int_def)

lemma answers_reconstruct:
  "set items \<subseteq> set opts \<Longrightarrow> map (at_int opts) (map (indexOf opts) items) = map Some items"
  by (induction items) (simp_all add: at_int_indexOf)

lemma answers_in_range:
  "set items \<subseteq> set opts \<Longrightarrow> \<forall>k \<in> set (map (indexOf opts) items). 0 \<le> k \<and> k < int (length opts)"
  using indexOf_found by fastforce

lemma set_foldl_set_add: "set (foldl set_add acc xs) = set acc \<union> set xs"
  by (induction xs arbitrary: acc) (auto simp add: set_add_def)

lemma distinct_foldl_set_add: "distinct acc \<Longrightarrow> distinct (foldl set_add acc xs)"
  by (induction xs arbitrary: acc) (simp_all add: set_add_def)

lemma set_from_Set: "set (from_Set xs) = set xs"
  by (simp add: from_Set_def set_foldl_set_add)

lemma distinct_from_Set: "distinct (from_Set xs)"
  by (simp add: from_Set_def distinct_foldl_set_add)

lemma length_from_Set: "length (from_Set xs) = card (set xs)"
  using distinct_card [OF distinct_from_Set, of xs] by (simp add: set_from_Set)

lemma makeWordRecallTask_fst:
  "\<exists>opts. mset opts = mset words \<and>
     fst (makeWordRecallTask i ttl words g) =
       \<lparr>task_id = i, task_type = WordRecall, title = ttl,
        description =
          js ''Remember the list of words and tap them in the same order after Begin.'',
        prompt = js ''Remember the words: '' @ join (js '', '') words @ js ''.'',
        options = Some opts, sequenceAnswer = Some (map (indexOf opts) words),
        correctAnswer = None\<rparr>"
  using shuffle_perm [of words g]
  by (simp add: makeWordRecallTask_def Let_def split_beta)

text \<open>
  Reading the options of a word-recall task at its correct-sequence answer gives the
  words in the order of the prompt.
\<close>

lemma makeWordRecallTask_reconstructs:
  "\<exists>opts sa. options (fst (makeWordRecallTask i ttl words g)) = Some opts
     \<and> sequenceAnswer (fst (makeWordRecallTask i ttl words g)) = Some sa
     \<and> map (at_int opts) sa = map Some words"
proof -
  obtain opts where m: "mset opts = mset words" and
    t: "fst (makeWordRecallTask i ttl words g) =
       \<lparr>task_id = i, task_type = WordRecall, title = ttl,
        description =
          js ''Remember the list of words and tap them in the same order after Begin.'',
        prompt = js ''Remember the words: '' @ join (js '', '') words @ js ''.'',
        options = Some opts, sequenceAnswer = Some (map (indexOf opts) words),
        correctAnswer = None\<rparr>"
    using makeWordRecallTask_fst by blast
  from m have "set words \<subseteq> set opts"
    by (metis set_mset_mset subset_refl)
  then have "map (at_int opts) (map (indexOf opts) words) = map Some words"
    by (rule answers_reconstruct)
  with t show ?thesis by simp
qed

lemma makeDigitSpanTask_fst:
  "\<exists>pool extra. mset pool = mset (from_Set (digits @ extra)) \<and> length extra \<le> 5 \<and>
     fst (makeDigitSpanTask i ttl digits g) =
       \<lparr>task_id = i, task_type = DigitSpan, title = ttl,
        description = js ''Tap the digits in the exact order after Begin.'',
        prompt = join (js '', '') (map String_of digits),
        options = Some (map String_of pool),
        sequenceAnswer = Some (map (indexOf (map String_of pool)) (map String_of digits)),
        correctAnswer = None\<rparr>"
proof -
  define ten where "ten = fst (shuffle [0, 1, 2, 3, 4, 5, 6, 7, 8, 9 :: nat] g)"
  define g1 where "g1 = snd (shuffle [0, 1, 2, 3, 4, 5, 6, 7, 8, 9 :: nat] g)"
  define pool where "pool = fst (shuffle (from_Set (digits @ take 5 ten)) g1)"
  have "mset pool = mset (from_Set (digits @ take 5 ten))"
    by (simp add: pool_def shuffle_perm)
  moreover have "length (take 5 ten) \<le> 5"
    by simp
  moreover have "fst (makeDigitSpanTask i ttl digits g) =
       \<lparr>task_id = i, task_type = DigitSpan, title = ttl,
        description = js ''Tap the digits in the exact order after Begin.'',
        prompt = join (js '', '') (map String_of digits),
        options = Some (map String_of pool),
        sequenceAnswer = Some (map (indexOf (map String_of pool)) (map String_of digits)),
        correctAnswer = None\<rparr>"
    by (simp add: makeDigitSpanTask_def Let_def split_beta pool_def g1_def ten_def comp_def)
  ultimately show ?thesis by blast
qed


lemma String_of_nonempty: "String_of n \<noteq> []"
  by (subst String_of.simps) simp

lemma String_of_inj: "String_of n = String_of m \<Longrightarrow> n = m"
proof (induction n arbitrary: m rule: String_of.induct)
  case (1 n)
  show ?case
  proof (cases "n < 10")
    case True
    show ?thesis
    proof (cases "m < 10")
      case True
      with \<open>n < 10\<close> "1.prems" show ?thesis
        by (simp add: String_of.simps [of n] String_of.simps [of m])
    next
      case False
      with \<open>n < 10\<close> "1.prems" String_of_nonempty [of "m div 10"] show ?thesis
        by (simp add: String_of.simps [of n] String_of.simps [of m])
    qed
  next
    case False
    show ?thesis
    proof (cases "m < 10")
      case True
      with \<open>\<not> n < 10\<close> "1.prems" String_of_nonempty [of "n div 10"] show ?thesis
        by (simp add: String_of.simps [of n] String_of.simps [of m])
    next
      case mf: False
      with False "1.prems" have e: "String_of (n div 10) = String_of (m div 10)" "n mod 10 = m mod 10"
        by (simp_all add: String_of.simps [of n] String_of.simps [of m])
      from "1.IH" [OF False e(1)] have "n div 10 = m div 10" .
      with e(2) show ?thesis
        by (metis div_mult_mod_eq)
    qed
  qed
qed

lemma String_of_digits: "map String_of [3, 9, 1, 4, 7] = [[51], [57], [49], [52], [55]]"
  by (simp add: String_of.simps)

text \<open>
  C9: for a digit-span task built from distinct digits, every prompted digit is among the
  options, the options hold no digit twice, every entry of the correct-sequence answer is
  an index into the options (at least 0, below their number) and reads the prompted digit
  there, and the number of options lies between the number of prompted digits and that
  number plus five.
\<close>

theorem digit_span_answer_valid:
  assumes "distinct digits"
  shows "\<exists>opts sa. options (fst (makeDigitSpanTask i ttl digits g)) = Some opts
    \<and> sequenceAnswer (fst (makeDigitSpanTask i ttl digits g)) = Some sa
    \<and> set (map String_of digits) \<subseteq> set opts
    \<and> distinct opts
    \<and> (\<forall>k \<in> set sa. 0 \<le> k \<and> k < int (length opts))
    \<and> map (at_int opts) sa = map Some (map String_of digits)
    \<and> length digits \<le> length opts \<and> length opts \<le> length digits + 5"
proof -
  obtain pool extra where
    p: "mset pool = mset (from_Set (digits @ extra))" and
    e: "length extra \<le> 5" and
    t: "fst (makeDigitSpanTask i ttl digits g) =
       \<lparr>task_id = i, task_type = DigitSpan, title = ttl,
        description = js ''Tap the digits in the exact order after Begin.'',
        prompt = join (js '', '') (map String_of digits),
        options = Some (map String_of pool),
        sequenceAnswer = Some (map (indexOf (map String_of pool)) (map String_of digits)),
        correctAnswer = None\<rparr>"
    using makeDigitSpanTask_fst by blast
  from p have sp: "set pool = set digits \<union> set extra"
    by (metis set_mset_mset set_from_Set set_append)
  from p have dp: "distinct pool"
    by (metis distinct_from_Set mset_eq_imp_distinct_iff)
  from p have "length pool = length (from_Set (digits @ extra))"
    by (metis size_mset)
  then have lp: "length pool = card (set digits \<union> set extra)"
    by (simp add: length_from_Set)
  have sub: "set (map String_of digits) \<subseteq> set (map String_of pool)"
    using sp by auto
  have d: "distinct (map String_of pool)"
    using dp by (simp add: distinct_map inj_on_def) (blast dest: String_of_inj)
  have lo: "length digits \<le> length pool"
  proof -
    have "card (set digits) \<le> card (set digits \<union> set extra)"
      by (rule card_mono) simp_all
    with assms lp show ?thesis
      by (simp add: distinct_card)
  qed
  have hi: "length pool \<le> length digits + 5"
  proof -
    have "card (set digits \<union> set extra) \<le> card (set digits) + card (set extra)"
      by (rule card_Un_le)
    also have "\<dots> \<le> length digits + length extra"
      by (simp add: add_mono card_length)
    finally show ?thesis
      using lp e by simp
  qed
  from t sub d lo hi answers_in_range [OF sub] answers_reconstruct [OF sub]
  show ?thesis by simp
qed


text \<open>
  Both bounds on the number of options are reached for the digits 3, 9, 1, 4, 7: ten
  options when the five distractors are all new, five when they are the prompted digits.
\<close>

lemma digit_span_all_new:
  "map_option length (options (fst (makeDigitSpanTask (js ''digit-span'') (js ''Digit Span'')
      [3, 9, 1, 4, 7] [0, 1, 3, 3, 4]))) = Some 10"
  by code_simp

lemma digit_span_none_new:
  "map_option length (options (fst (makeDigitSpanTask (js ''digit-span'') (js ''Digit Span'')
      [3, 9, 1, 4, 7] [3, 8, 1, 2, 4]))) = Some 5"
  by code_simp

theorem digit_span_answer_valid_witness:
  "distinct [3, 9, 1, 4, 7 :: nat]
   \<and> (\<exists>opts sa.
        options (fst (makeDigitSpanTask (js ''digit-span'') (js ''Digit Span'') [3, 9, 1, 4, 7]
          [0, 1, 3, 3, 4])) = Some opts
        \<and> sequenceAnswer (fst (makeDigitSpanTask (js ''digit-span'') (js ''Digit Span'')
          [3, 9, 1, 4, 7] [0, 1, 3, 3, 4])) = Some sa
        \<and> list_all (\<lambda>k. 0 \<le> k \<and> k < int (length opts)) sa
        \<and> map (at_int opts) sa = map Some (map String_of [3, 9, 1, 4, 7]))"
proof -
  have d: "distinct [3, 9, 1, 4, 7 :: nat]" by simp
  from digit_span_answer_valid [OF d, of "js ''digit-span''" "js ''Digit Span''" "[0, 1, 3, 3, 4]"]
  show ?thesis
    using d by (auto simp add: list_all_iff)
qed


subsection \<open>The generated task set\<close>

lemma recall_ok_word:
  assumes "mset opts = mset words"
  shows "spec_recall_ok
       \<lparr>task_id = i, task_type = WordRecall, title = ttl, description = dsc,
        prompt = js ''Remember the words: '' @ join (js '', '') words @ js ''.'',
        options = Some opts, sequenceAnswer = Some (map (indexOf opts) words),
        correctAnswer = None\<rparr>"
proof -
  from assms have sub: "set words \<subseteq> set opts"
    by (metis set_mset_mset subset_refl)
  have r: "map (at_int opts) (map (indexOf opts) words) = map Some words"
    using answers_reconstruct [OF sub] .
  have "map (\<lambda>k. nullish (at_int opts k) []) (map (indexOf opts) words) = words"
  proof -
    have "map (\<lambda>k. nullish (at_int opts k) []) (map (indexOf opts) words)
        = map (\<lambda>v. nullish v []) (map (at_int opts) (map (indexOf opts) words))"
      by (simp add: comp_def)
    also have "\<dots> = words"
      unfolding r by (simp add: comp_def nullish_def)
    finally show ?thesis .
  qed
  then show ?thesis
    unfolding spec_recall_ok_def
    by (simp add: r spec_prompt_def list_all_iff del: map_map)
qed


lemma recall_ok_digit:
  assumes "set digits \<subseteq> set pool"
  shows "spec_recall_ok
       \<lparr>task_id = i, task_type = DigitSpan, title = ttl, description = dsc,
        prompt = join (js '', '') (map String_of digits),
        options = Some (map String_of pool),
        sequenceAnswer = Some (map (indexOf (map String_of pool)) (map String_of digits)),
        correctAnswer = None\<rparr>"
proof -
  define opts where "opts = map String_of pool"
  define items where "items = map String_of digits"
  from assms have sub: "set items \<subseteq> set opts"
    by (auto simp add: opts_def items_def)
  have r: "map (at_int opts) (map (indexOf opts) items) = map Some items"
    using answers_reconstruct [OF sub] .
  have "map (\<lambda>k. nullish (at_int opts k) []) (map (indexOf opts) items)
        = map (\<lambda>v. nullish v []) (map (at_int opts) (map (indexOf opts) items))"
    by (simp add: comp_def)
  also have "\<dots> = items"
    unfolding r by (simp add: comp_def nullish_def)
  finally have "map (\<lambda>k. nullish (at_int opts k) []) (map (indexOf opts) items) = items" .
  then show ?thesis
    unfolding spec_recall_ok_def opts_def [symmetric] items_def [symmetric]
    by (simp add: r spec_prompt_def list_all_iff del: map_map)
qed

lemma recall_ok_makeWordRecallTask: "spec_recall_ok (fst (makeWordRecallTask i ttl words g))"
proof -
  obtain opts where "mset opts = mset words" and
    "fst (makeWordRecallTask i ttl words g) =
       \<lparr>task_id = i, task_type = WordRecall, title = ttl,
        description =
          js ''Remember the list of words and tap them in the same order after Begin.'',
        prompt = js ''Remember the words: '' @ join (js '', '') words @ js ''.'',
        options = Some opts, sequenceAnswer = Some (map (indexOf opts) words),
        correctAnswer = None\<rparr>"
    using makeWordRecallTask_fst by blast
  then show ?thesis
    using recall_ok_word by simp
qed

lemma recall_ok_makeDigitSpanTask: "spec_recall_ok (fst (makeDigitSpanTask i ttl digits g))"
proof -
  obtain pool extra where
    p: "mset pool = mset (from_Set (digits @ extra))" and
    t: "fst (makeDigitSpanTask i ttl digits g) =
       \<lparr>task_id = i, task_type = DigitSpan, title = ttl,
        description = js ''Tap the digits in the exact order after Begin.'',
        prompt = join (js '', '') (map String_of digits),
        options = Some (map String_of pool),
        sequenceAnswer = Some (map (indexOf (map String_of pool)) (map String_of digits)),
        correctAnswer = None\<rparr>"
    using makeDigitSpanTask_fst by blast
  from p have "set pool = set digits \<union> set extra"
    by (metis set_mset_mset set_from_Set set_append)
  then have "set digits \<subseteq> set pool"
    by simp
  then show ?thesis
    unfolding t by (rule recall_ok_digit)
qed

lemma makeWordRecallTask_kind:
  "task_type (fst (makeWordRecallTask i ttl words g)) = WordRecall"
  "set (nullish (options (fst (makeWordRecallTask i ttl words g))) []) = set words"
proof -
  obtain opts where m: "mset opts = mset words" and
    t: "fst (makeWordRecallTask i ttl words g) =
       \<lparr>task_id = i, task_type = WordRecall, title = ttl,
        description =
          js ''Remember the list of words and tap them in the same order after Begin.'',
        prompt = js ''Remember the words: '' @ join (js '', '') words @ js ''.'',
        options = Some opts, sequenceAnswer = Some (map (indexOf opts) words),
        correctAnswer = None\<rparr>"
    using makeWordRecallTask_fst by blast
  from m have s: "set opts = set words"
    by (metis set_mset_mset)
  show "task_type (fst (makeWordRecallTask i ttl words g)) = WordRecall"
    by (simp add: t)
  show "set (nullish (options (fst (makeWordRecallTask i ttl words g))) []) = set words"
    by (simp add: t s nullish_def)
qed

lemma makeDigitSpanTask_kind: "task_type (fst (makeDigitSpanTask i ttl digits g)) = DigitSpan"
  using makeDigitSpanTask_fst [of digits i ttl g] by auto

lemma fixed_tasks_ok:
  "spec_recall_ok attention1" "spec_recall_ok visualSearch" "spec_recall_ok clock"
  "task_type attention1 = Attention" "task_type visualSearch = Attention"
  "task_type clock = ClockDrawing"
  by (simp_all add: spec_recall_ok_def attention1_def visualSearch_def clock_def)

lemma tasks_from_lexicon_task_set: "spec_task_set (fst (tasks_from_lexicon lexicon g))"
proof -
  define sA where "sA = fst (shuffle lexicon g)"
  define g1 where "g1 = snd (shuffle lexicon g)"
  define poolA where "poolA = take 5 sA"
  define sB where "sB = fst (shuffle (filter (\<lambda>w. w \<notin> set poolA) lexicon) g1)"
  define g2 where "g2 = snd (shuffle (filter (\<lambda>w. w \<notin> set poolA) lexicon) g1)"
  define poolB where "poolB = take 5 sB"
  define word1 where
    "word1 = fst (makeWordRecallTask (js ''word-recall'') (js ''Word Recall'') poolA g2)"
  define g3 where
    "g3 = snd (makeWordRecallTask (js ''word-recall'') (js ''Word Recall'') poolA g2)"
  define word2 where
    "word2 = fst (makeWordRecallTask (js ''word-recall-2'') (js ''Word Recall II'') poolB g3)"
  define g4 where
    "g4 = snd (makeWordRecallTask (js ''word-recall-2'') (js ''Word Recall II'') poolB g3)"
  define digit1 where
    "digit1 = fst (makeDigitSpanTask (js ''digit-span'') (js ''Digit Span'') [3, 9, 1, 4, 7] g4)"
  define g5 where
    "g5 = snd (makeDigitSpanTask (js ''digit-span'') (js ''Digit Span'') [3, 9, 1, 4, 7] g4)"
  define digit2 where
    "digit2 = fst (makeDigitSpanTask (js ''digit-span-reverse'') (js ''Digit Span (Reverse)'')
       [7, 2, 9, 3] g5)"
  have tasks: "fst (tasks_from_lexicon lexicon g)
      = [word1, digit1, attention1, word2, digit2, visualSearch, clock]"
    by (simp add: tasks_from_lexicon_def Let_def split_beta word1_def digit1_def word2_def
        digit2_def g5_def g4_def g3_def g2_def g1_def poolB_def poolA_def sB_def sA_def)
  have "set sB = set (filter (\<lambda>w. w \<notin> set poolA) lexicon)"
    by (simp only: sB_def shuffle_set)
  then have "set sB \<inter> set poolA = {}"
    by auto
  moreover have "set poolB \<subseteq> set sB"
    by (simp add: poolB_def set_take_subset)
  ultimately have disjoint: "set poolA \<inter> set poolB = {}"
    by blast
  have kinds: "filter (\<lambda>t. task_type t = WordRecall)
      [word1, digit1, attention1, word2, digit2, visualSearch, clock] = [word1, word2]"
    by (simp add: word1_def word2_def digit1_def digit2_def makeWordRecallTask_kind
        makeDigitSpanTask_kind fixed_tasks_ok)
  have opts: "set (nullish (options word1) []) = set poolA"
    "set (nullish (options word2) []) = set poolB"
    by (simp_all add: word1_def word2_def makeWordRecallTask_kind)
  have ok: "list_all spec_recall_ok [word1, digit1, attention1, word2, digit2, visualSearch, clock]"
    by (simp add: word1_def word2_def digit1_def digit2_def recall_ok_makeWordRecallTask
        recall_ok_makeDigitSpanTask fixed_tasks_ok)
  show ?thesis
    unfolding spec_task_set_def tasks kinds
    using disjoint ok by (simp add: opts)
qed


subsection \<open>generateCognitiveTasks and the language\<close>

lemma lexicon_keys:
  "map_of WORDS_BY_LANG (js ''en'') = Some WORDS_en"
  "map_of WORDS_BY_LANG (js ''xx'') = None"
  "map_of WORDS_BY_LANG (js ''constructor'') = None"
  "map_of WORDS_BY_LANG (js ''toString'') = None"
  by (simp_all add: WORDS_BY_LANG_def js_def)

lemma inherited_names:
  "js ''constructor'' \<in> set Object_prototype_names"
  "js ''toString'' \<in> set Object_prototype_names"
  "js ''xx'' \<notin> set Object_prototype_names"
  "js ''en'' \<notin> set Object_prototype_names"
  by (simp_all add: Object_prototype_names_def js_def)

lemma own_names_not_inherited:
  "language \<in> set Object_prototype_names \<Longrightarrow> map_of WORDS_BY_LANG language = None"
  by (auto simp add: Object_prototype_names_def WORDS_BY_LANG_def js_def)

lemma generateCognitiveTasks_inherited:
  "language \<in> set Object_prototype_names \<Longrightarrow> generateCognitiveTasks language g = Inl TypeError"
  by (simp add: generateCognitiveTasks_def get_property_def own_names_not_inherited)

lemma generateCognitiveTasks_unknown:
  "map_of WORDS_BY_LANG language = None \<Longrightarrow> language \<notin> set Object_prototype_names
     \<Longrightarrow> generateCognitiveTasks language g = Inr (tasks_from_lexicon WORDS_en g)"
  by (simp add: generateCognitiveTasks_def get_property_def)

lemma generateCognitiveTasks_en:
  "generateCognitiveTasks (js ''en'') g = Inr (tasks_from_lexicon WORDS_en g)"
  by (simp add: generateCognitiveTasks_def get_property_def lexicon_keys)

lemma generateCognitiveTasks_structure:
  assumes "language \<notin> set Object_prototype_names"
  shows "\<exists>tasks g'. generateCognitiveTasks language g = Inr (tasks, g') \<and> spec_task_set tasks"
proof (cases "map_of WORDS_BY_LANG language")
  case None
  from None assms have "generateCognitiveTasks language g = Inr (tasks_from_lexicon WORDS_en g)"
    by (rule generateCognitiveTasks_unknown)
  then show ?thesis
    using tasks_from_lexicon_task_set [of WORDS_en g]
    by (cases "tasks_from_lexicon WORDS_en g") auto
next
  case (Some ws)
  then have "generateCognitiveTasks language g = Inr (tasks_from_lexicon ws g)"
    by (simp add: generateCognitiveTasks_def get_property_def)
  then show ?thesis
    using tasks_from_lexicon_task_set [of ws g]
    by (cases "tasks_from_lexicon ws g") auto
qed

text \<open>
  C4 fails on the code at the language "toString": the lookup in the lexicon object
  finds the method inherited from \<open>Object.prototype\<close>, which \<open>??\<close> does not replace and
  \<open>shuffle\<close> cannot spread, so generation throws and produces no task. For every
  language that is not the name of an inherited property the claim holds: generation
  returns seven tasks, the two word-recall tasks share no word, and the options read at
  the correct-sequence answer give the prompt's items in order.
\<close>

theorem generateCognitiveTasks_task_set:
  "generateCognitiveTasks (js ''toString'') g = Inl TypeError
   \<and> (language \<notin> set Object_prototype_names \<longrightarrow>
        (\<exists>tasks g'. generateCognitiveTasks language g = Inr (tasks, g') \<and> spec_task_set tasks))"
  using generateCognitiveTasks_inherited [OF inherited_names(2)]
    generateCognitiveTasks_structure by blast

theorem generateCognitiveTasks_task_set_witness:
  "js ''en'' \<notin> set Object_prototype_names
   \<and> (\<exists>tasks g'. generateCognitiveTasks (js ''en'') [] = Inr (tasks, g') \<and> spec_task_set tasks)"
  using generateCognitiveTasks_task_set [of "[]" "js ''en''"] inherited_names(4)
  by blast

text \<open>
  C8 fails on the code at the language "constructor", which is not in the lexicon:
  generation throws a \<open>TypeError\<close> instead of falling back to the English list. For
  every language that is neither in the lexicon nor the name of an inherited property
  (for example "xx"), generation does what it does for "en" and returns its tasks.
\<close>

theorem unknown_language_fallback:
  "map_of WORDS_BY_LANG (js ''constructor'') = None
   \<and> generateCognitiveTasks (js ''constructor'') g = Inl TypeError
   \<and> (map_of WORDS_BY_LANG language = None \<and> language \<notin> set Object_prototype_names \<longrightarrow>
        generateCognitiveTasks language g = generateCognitiveTasks (js ''en'') g
        \<and> (\<exists>tasks g'. generateCognitiveTasks language g = Inr (tasks, g')))"
proof -
  have "map_of WORDS_BY_LANG language = None \<and> language \<notin> set Object_prototype_names \<longrightarrow>
        generateCognitiveTasks language g = generateCognitiveTasks (js ''en'') g
        \<and> (\<exists>tasks g'. generateCognitiveTasks language g = Inr (tasks, g'))"
    using generateCognitiveTasks_unknown [of language g] generateCognitiveTasks_en [of g]
    by (cases "tasks_from_lexicon WORDS_en g") auto
  with lexicon_keys(3) generateCognitiveTasks_inherited [OF inherited_names(1), of g]
  show ?thesis by blast
qed

theorem unknown_language_fallback_witness:
  "map_of WORDS_BY_LANG (js ''xx'') = None \<and> js ''xx'' \<notin> set Object_prototype_names
   \<and> generateCognitiveTasks (js ''xx'') [] = generateCognitiveTasks (js ''en'') []
   \<and> (\<exists>tasks g'. generateCognitiveTasks (js ''xx'') [] = Inr (tasks, g'))"
  using unknown_language_fallback [of "[]" "js ''xx''"] lexicon_keys(2) inherited_names(3)
  by blast


end
